theory Spec2Isabelle
  imports Main "HOL-Library.Word" "HOL-Library.Sublist"
begin

unbundle bit_operations_syntax

section \<open>JavaScript strings and numbers\<close>

text \<open>
  A JavaScript string is a sequence of UTF-16 code units. The model covers the strings
  whose code units all lie below 256 (ISO-8859-1): a \<^typ>\<open>char\<close> is such a code unit,
  \<^term>\<open>length\<close> is \<^verbatim>\<open>.length\<close>, and on this range \<^verbatim>\<open>toLowerCase\<close>, \<^verbatim>\<open>trim\<close>
  and the regular-expression class \<^verbatim>\<open>\s\<close> act on single code units as written below.
  The clock values are mathematical integers: they stay far below \<open>2 ^ 53\<close>, where
  doubles are exact. The delays of the delivery client are computed in doubles, as
  \<open>js_number\<close> below.
\<close>

definition isWhiteSpace :: "char \<Rightarrow> bool" where
  "isWhiteSpace c \<longleftrightarrow>
     c = CHR 0x09 \<or> c = CHR 0x0A \<or> c = CHR 0x0B \<or> c = CHR 0x0C \<or> c = CHR 0x0D \<or>
     c = CHR 0x20 \<or> c = CHR 0xA0"

definition toLowerChar :: "char \<Rightarrow> char" where
  "toLowerChar c =
     (let n = (of_char c :: nat)
      in if (65 \<le> n \<and> n \<le> 90) \<or> (192 \<le> n \<and> n \<le> 214) \<or> (216 \<le> n \<and> n \<le> 222)
         then char_of (n + 32) else c)"

definition toLowerCase :: "string \<Rightarrow> string" where
  "toLowerCase s = map toLowerChar s"

definition trim :: "string \<Rightarrow> string" where
  "trim s = rev (dropWhile isWhiteSpace (rev (dropWhile isWhiteSpace s)))"

definition includesStr :: "string \<Rightarrow> string \<Rightarrow> bool" where
  "includesStr s w \<longleftrightarrow> sublist w s"

text \<open>\<^verbatim>\<open>s.split("\n")\<close>: a separator at every line feed, empty pieces kept.\<close>

fun splitLines :: "string \<Rightarrow> string list" where
  "splitLines [] = [[]]"
| "splitLines (c # cs) =
     (if c = CHR 0x0A then [] # splitLines cs
      else (case splitLines cs of [] \<Rightarrow> [[c]] | l # ls \<Rightarrow> (c # l) # ls))"

text \<open>\<^verbatim>\<open>s.split(/\s+/)\<close>: a separator at every maximal run of white space.\<close>

fun splitWhiteSpace :: "string \<Rightarrow> string list" where
  "splitWhiteSpace [] = [[]]"
| "splitWhiteSpace (c # cs) =
     (if isWhiteSpace c
      then (if cs \<noteq> [] \<and> isWhiteSpace (hd cs) then splitWhiteSpace cs
            else [] # splitWhiteSpace cs)
      else (case splitWhiteSpace cs of [] \<Rightarrow> [[c]] | w # ws \<Rightarrow> (c # w) # ws))"

text \<open>\<^verbatim>\<open>xs.join("\n")\<close>.\<close>

fun joinLines :: "string list \<Rightarrow> string" where
  "joinLines [] = []"
| "joinLines [x] = x"
| "joinLines (x # y # ys) = x @ [CHR 0x0A] @ joinLines (y # ys)"

text \<open>
  A value that may be \<^verbatim>\<open>undefined\<close> or \<^verbatim>\<open>null\<close> is an option; a string is truthy
  when it is present and not empty.
\<close>

definition truthy :: "string option \<Rightarrow> bool" where
  "truthy v \<longleftrightarrow> (case v of None \<Rightarrow> False | Some s \<Rightarrow> s \<noteq> [])"

text \<open>
  \<^verbatim>\<open>parseInt(s)\<close> with no radix: leading white space is skipped, one sign is read, a
  \<^verbatim>\<open>0x\<close> prefix selects radix 16, and the longest run of digits is the value; no digit
  at all gives \<^verbatim>\<open>NaN\<close>.
\<close>

definition digitValue :: "char \<Rightarrow> nat option" where
  "digitValue c =
     (let n = (of_char c :: nat)
      in if 48 \<le> n \<and> n \<le> 57 then Some (n - 48)
         else if 97 \<le> n \<and> n \<le> 122 then Some (n - 87)
         else if 65 \<le> n \<and> n \<le> 90 then Some (n - 55)
         else None)"

definition isRadixDigit :: "nat \<Rightarrow> char \<Rightarrow> bool" where
  "isRadixDigit R c \<longleftrightarrow> (case digitValue c of None \<Rightarrow> False | Some d \<Rightarrow> d < R)"

definition mathInt :: "nat \<Rightarrow> string \<Rightarrow> int" where
  "mathInt R z =
     foldl (\<lambda>acc c. acc * int R + (case digitValue c of None \<Rightarrow> 0 | Some d \<Rightarrow> int d)) 0 z"

definition parseInt :: "string \<Rightarrow> int option" where
  "parseInt inputString =
     (let S = dropWhile isWhiteSpace inputString;
          negative = (S \<noteq> [] \<and> hd S = CHR ''-'');
          S1 = (if S \<noteq> [] \<and> (hd S = CHR ''+'' \<or> hd S = CHR ''-'') then tl S else S);
          hex = (take 2 S1 = ''0x'' \<or> take 2 S1 = ''0X'');
          R = (if hex then 16 else 10);
          S2 = (if hex then drop 2 S1 else S1);
          Z = takeWhile (isRadixDigit R) S2
      in if Z = [] then None
         else Some ((if negative then - 1 else 1) * mathInt R Z))"







section \<open>Signature verifier\<close>

text \<open>
  \<^verbatim>\<open>b.toString(16).padStart(2, "0")\<close> for every byte of the digest, joined.
\<close>

definition hexDigit :: "nat \<Rightarrow> char" where
  "hexDigit n = ''0123456789abcdef'' ! n"

definition toHex2 :: "8 word \<Rightarrow> string" where
  "toHex2 b = [hexDigit (unat b div 16), hexDigit (unat b mod 16)]"

definition hashHex :: "8 word list \<Rightarrow> string" where
  "hashHex hashArray = concat (map toHex2 hashArray)"

text \<open>
  \<^verbatim>\<open>charCodeAt(i)\<close> as the 32-bit integer the bitwise operators work on; out of range
  it is \<^verbatim>\<open>NaN\<close>, which they read as 0.
\<close>

definition charCodeAt :: "string \<Rightarrow> nat \<Rightarrow> 32 word" where
  "charCodeAt s i = (if i < length s then word_of_nat (of_char (s ! i)) else 0)"

text \<open>Lines 80-90 of \<^verbatim>\<open>verifySlackRequest\<close>: the length check and the accumulating loop.\<close>

definition xorAccumulate :: "string \<Rightarrow> string \<Rightarrow> 32 word" where
  "xorAccumulate computedSignature signature =
     foldl (\<lambda>result i. result OR (charCodeAt computedSignature i XOR charCodeAt signature i))
       0 [0 ..< length computedSignature]"

definition constantTimeEqual :: "string \<Rightarrow> string \<Rightarrow> bool" where
  "constantTimeEqual computedSignature signature =
     (if length computedSignature \<noteq> length signature then False
      else xorAccumulate computedSignature signature = 0)"

text \<open>
  \<^verbatim>\<open>Math.abs(currentTime - parseInt(timestamp)) > 60 * 5\<close>; a comparison with
  \<^verbatim>\<open>NaN\<close> is false.
\<close>

definition timestampTooOld :: "int \<Rightarrow> int option \<Rightarrow> bool" where
  "timestampTooOld currentTime parsed =
     (case parsed of None \<Rightarrow> False | Some t \<Rightarrow> \<bar>currentTime - t\<bar> > 60 * 5)"

text \<open>
  \<^verbatim>\<open>verifySlackRequest\<close>. The keyed digest of \<^verbatim>\<open>crypto.subtle\<close> is the parameter
  \<open>hmacSha256 key message\<close>; \<open>nowMs\<close> is \<^verbatim>\<open>Date.now()\<close>.
\<close>

definition verifySlackRequest ::
  "(string \<Rightarrow> string \<Rightarrow> 8 word list) \<Rightarrow> int \<Rightarrow> string \<Rightarrow> string \<Rightarrow> string \<Rightarrow> string \<Rightarrow> bool"
where
  "verifySlackRequest hmacSha256 nowMs signingSecret timestamp body signature =
     (let currentTime = nowMs div 1000
      in if timestampTooOld currentTime (parseInt timestamp) then False
         else
           (let sigBaseString = ''v0:'' @ timestamp @ '':'' @ body;
                hashArray = hmacSha256 signingSecret sigBaseString;
                computedSignature = ''v0='' @ hashHex hashArray
            in constantTimeEqual computedSignature signature))"

section \<open>Duplicate-aware ledger\<close>

text \<open>
  A thrown JavaScript value: an \<^verbatim>\<open>Error\<close> object with its message, or any other
  value with its \<^verbatim>\<open>String(...)\<close> image. \<open>thrownMessage\<close> is
  \<^verbatim>\<open>error instanceof Error ? error.message : String(error)\<close>.
\<close>

datatype js_thrown = JsError string | JsValue string

fun thrownMessage :: "js_thrown \<Rightarrow> string" where
  "thrownMessage (JsError message) = message"
| "thrownMessage (JsValue shown) = shown"

text \<open>
  What a \<^verbatim>\<open>catch\<close> handler around the completion engine can receive: a value as
  above, or a value whose conversion throws in its turn (an object without
  \<^verbatim>\<open>toString\<close> under \<^verbatim>\<open>String(error)\<close>, an \<^verbatim>\<open>Error\<close> whose message is such an object
  under the template string). The
  handlers of this program convert what they catch with
  \<^verbatim>\<open>error instanceof Error ? error.message : String(error)\<close>; there \<open>Inl\<close> is what the
  conversion throws.
\<close>

datatype caught = Printable js_thrown | Unprintable caught

fun caughtMessage :: "caught \<Rightarrow> caught + string" where
  "caughtMessage (Printable error) = Inr (thrownMessage error)"
| "caughtMessage (Unprintable error) = Inl error"

text \<open>
  The R2 bucket and the KV namespace, as far as this program uses them: \<^verbatim>\<open>get\<close> of a
  key gives its text or nothing, \<^verbatim>\<open>put\<close> replaces the text of the key.
\<close>

type_synonym blobStore = "string \<rightharpoonup> string"

text \<open>
  The similarity check shared by both \<^verbatim>\<open>captureReminder\<close> tools (lines 242-263 of
  the Slack handler, lines 169-192 of \<^verbatim>\<open>tools.ts\<close>).
\<close>

definition existingLinesOf :: "string \<Rightarrow> string list" where
  "existingLinesOf existingContent =
     filter (\<lambda>line. trim line \<noteq> []) (splitLines existingContent)"

definition reminderWordsOf :: "string \<Rightarrow> string list" where
  "reminderWordsOf reminder =
     (let reminderLower = toLowerCase reminder
      in filter (\<lambda>word. length word > 3) (splitWhiteSpace reminderLower))"

definition matchingWords :: "string list \<Rightarrow> string \<Rightarrow> string list" where
  "matchingWords reminderWords line =
     (let lineLower = toLowerCase line
      in filter (\<lambda>word. includesStr lineLower word) reminderWords)"

definition similarEntriesOf :: "string \<Rightarrow> string \<Rightarrow> string list" where
  "similarEntriesOf existingContent reminder =
     (let existingLines = existingLinesOf existingContent;
          reminderWords = reminderWordsOf reminder
      in filter (\<lambda>line. length (matchingWords reminderWords line) \<ge> 2) existingLines)"

definition similarMessage :: "string list \<Rightarrow> string" where
  "similarMessage similarEntries =
     ''Similar reminders already exist:'' @ [CHR 0x0A, CHR 0x0A] @ joinLines similarEntries @
     [CHR 0x0A, CHR 0x0A] @
     ''Would you like to add this new reminder anyway? If yes, please add more specific details to make it unique from the existing entries.''"

text \<open>
  The similarity heuristic in the words of the specification, for comparison with the
  code: a word is a maximal run of characters that are not white space; the significant
  tokens of a text are the words of the lower-cased text longer than 3 characters, in
  order and with repetitions; \<open>sharedTokenCount\<close> counts those that are substrings of
  the lower-cased line, \<open>sharedDistinctTokens\<close> lists them without repetition.
\<close>

fun wordsFrom :: "string \<Rightarrow> string \<Rightarrow> string list" where
  "wordsFrom w [] = (if w = [] then [] else [w])"
| "wordsFrom w (c # cs) =
     (if isWhiteSpace c then (if w = [] then wordsFrom [] cs else w # wordsFrom [] cs)
      else wordsFrom (w @ [c]) cs)"

definition wordsOf :: "string \<Rightarrow> string list" where
  "wordsOf s = wordsFrom [] s"

definition significantTokens :: "string \<Rightarrow> string list" where
  "significantTokens text = filter (\<lambda>token. length token > 3) (wordsOf (toLowerCase text))"

definition sharedTokenCount :: "string \<Rightarrow> string \<Rightarrow> nat" where
  "sharedTokenCount candidate line =
     length (filter (\<lambda>token. sublist token (toLowerCase line)) (significantTokens candidate))"

definition sharedDistinctTokens :: "string \<Rightarrow> string \<Rightarrow> string list" where
  "sharedDistinctTokens candidate line =
     filter (\<lambda>token. sublist token (toLowerCase line)) (remdups (significantTokens candidate))"

text \<open>
  The outcome names the branch a call took; the reply is the string the tool returns.
\<close>

datatype Outcome = Saved | SimilarFound "string list" | ToolError

record CaptureResult =
  cr_outcome :: Outcome
  cr_reply :: string
  cr_store :: blobStore

text \<open>
  \<^verbatim>\<open>captureReminder\<close> of the Slack handler: one ledger per user in the R2 bucket.
  \<open>today\<close> is \<^verbatim>\<open>new Date().toISOString().split("T")[0]\<close>.
\<close>

definition r2KeyOf :: "string \<Rightarrow> string" where
  "r2KeyOf userId = ''reminders/'' @ userId @ ''/reminders.md''"

definition ledgerOf :: "blobStore \<Rightarrow> string \<Rightarrow> string" where
  "ledgerOf bucket userId = (case bucket (r2KeyOf userId) of None \<Rightarrow> [] | Some text \<Rightarrow> text)"

definition newEntryOf :: "string \<Rightarrow> string \<Rightarrow> string" where
  "newEntryOf today reminder = ''['' @ today @ ''] '' @ reminder @ [CHR 0x0A]"

definition captureReminder :: "string \<Rightarrow> string \<Rightarrow> blobStore \<Rightarrow> string \<Rightarrow> CaptureResult" where
  "captureReminder today userId bucket reminder =
     (let r2Key = r2KeyOf userId;
          existingContent = ledgerOf bucket userId;
          similarEntries = similarEntriesOf existingContent reminder
      in if similarEntries \<noteq> []
         then \<lparr>cr_outcome = SimilarFound similarEntries,
               cr_reply = similarMessage similarEntries,
               cr_store = bucket\<rparr>
         else
           (let newEntry = newEntryOf today reminder;
                updatedContent = existingContent @ newEntry
            in \<lparr>cr_outcome = Saved,
                 cr_reply = ''Reminder saved: '' @ [CHR 0x22] @ reminder @ [CHR 0x22],
                 cr_store = bucket(r2Key \<mapsto> updatedContent)\<rparr>))"

text \<open>
  \<^verbatim>\<open>captureReminder\<close> of \<^verbatim>\<open>tools.ts\<close>: one ledger under the key
  \<^verbatim>\<open>reminders.md\<close> of the agent's KV namespace. \<open>agent\<close> says whether an agent context
  exists, \<open>kv\<close> is the namespace binding if configured, and \<open>enrich\<close> is the call of
  the completion engine on the enrichment prompt for the reminder, which returns a text
  or throws. What is thrown inside the \<^verbatim>\<open>try\<close> becomes an error reply, unless its
  conversion to a string throws: then the tool throws (\<open>Inl\<close>).
\<close>

definition captureReminderTool ::
  "string \<Rightarrow> bool \<Rightarrow> blobStore option \<Rightarrow> (string \<Rightarrow> caught + string) \<Rightarrow> string
     \<Rightarrow> caught + Outcome \<times> string \<times> blobStore option"
where
  "captureReminderTool today agent kv enrich reminder =
     (if \<not> agent then Inr (ToolError, ''Error: Agent context not available'', kv)
      else
        (case kv of
           None \<Rightarrow>
             Inr (ToolError,
              ''Error: REMINDERS_KV binding not configured. Please add a KV namespace binding in wrangler.jsonc'',
              kv)
         | Some namespace \<Rightarrow>
             (case enrich reminder of
                Inl error \<Rightarrow>
                  (case caughtMessage error of
                     Inl failure \<Rightarrow> Inl failure
                   | Inr message \<Rightarrow> Inr (ToolError, ''Error capturing reminder: '' @ message, kv))
              | Inr text \<Rightarrow>
                  (let enrichedText = trim text;
                       currentContent =
                         (case namespace ''reminders.md'' of None \<Rightarrow> [] | Some content \<Rightarrow> content);
                       similarEntries = similarEntriesOf currentContent enrichedText
                   in if similarEntries \<noteq> []
                      then Inr (SimilarFound similarEntries, similarMessage similarEntries, kv)
                      else
                        (let newEntry = newEntryOf today enrichedText;
                             updatedContent = currentContent @ newEntry
                         in Inr (Saved,
                             ''Reminder captured and saved! Added to reminders.md: '' @ [CHR 0x22] @
                               enrichedText @ [CHR 0x22],
                             Some (namespace(''reminders.md'' \<mapsto> updatedContent))))))))"

section \<open>Outbound delivery client\<close>




















section \<open>Response orchestrator\<close>

text \<open>
  What the completion engine hands back, as far as \<^verbatim>\<open>generateSlackResponse\<close> looks at
  it. The text may be missing (or hold another falsy value), hold a string, or hold
  something else, on which the call of \<^verbatim>\<open>trim\<close> throws; the unexpected shapes carry
  what touching them throws. \<open>tr_json\<close> is what
  \<^verbatim>\<open>JSON.stringify(result, null, 2)\<close> does: it gives a string or throws.
\<close>

datatype text_field =
    TextMissing
  | TextString string
  | TextOther caught

datatype js_value =
    Stringable string
  | Unstringable caught

datatype tool_result =
    ResultObject "js_value option" "js_value option" "js_value option"
  | ResultString string
  | ResultNull caught

record TextResult =
  tr_text :: text_field
  tr_toolCalls :: "nat option"
  tr_toolResults :: "tool_result list option"
  tr_json :: "caught + string"

text \<open>\<^verbatim>\<open>String(v)\<close>.\<close>

fun stringOf :: "js_value \<Rightarrow> caught + string" where
  "stringOf (Stringable shown) = Inr shown"
| "stringOf (Unstringable error) = Inl error"

text \<open>
  The callback of \<^verbatim>\<open>toolResults.map\<close>: the \<^verbatim>\<open>value\<close>, \<^verbatim>\<open>result\<close> and \<^verbatim>\<open>output\<close>
  properties in this order, then a raw string, else \<^verbatim>\<open>null\<close>.
\<close>

fun toolResultValue :: "tool_result \<Rightarrow> caught + string option" where
  "toolResultValue (ResultObject val res out) =
     (case val of
        Some v \<Rightarrow> map_sum id Some (stringOf v)
      | None \<Rightarrow>
          (case res of
             Some r \<Rightarrow> map_sum id Some (stringOf r)
           | None \<Rightarrow>
               (case out of
                  Some v \<Rightarrow> map_sum id Some (stringOf v)
                | None \<Rightarrow> Inr None)))"
| "toolResultValue (ResultString raw) = Inr (Some raw)"
| "toolResultValue (ResultNull error) = Inl error"

text \<open>\<^verbatim>\<open>Array.prototype.map\<close> with a callback that may throw: the first throw ends it.\<close>

fun mapThrowing :: "('a \<Rightarrow> caught + 'b) \<Rightarrow> 'a list \<Rightarrow> caught + 'b list" where
  "mapThrowing f [] = Inr []"
| "mapThrowing f (x # xs) =
     (case f x of
        Inl error \<Rightarrow> Inl error
      | Inr y \<Rightarrow> (case mapThrowing f xs of Inl error \<Rightarrow> Inl error | Inr ys \<Rightarrow> Inr (y # ys)))"

definition fallbackReply :: string where
  "fallbackReply =
     ''I processed your request but have no text response. Please try rephrasing your request.''"

text \<open>Lines 312-341: the tool results, then the fixed message.\<close>

definition toolResultsReply :: "TextResult \<Rightarrow> caught + string" where
  "toolResultsReply result =
     (case tr_toolCalls result of
        None \<Rightarrow> Inr fallbackReply
      | Some calls \<Rightarrow>
          if calls > 0
          then
            (case tr_toolResults result of
               None \<Rightarrow> Inr fallbackReply
             | Some toolResults \<Rightarrow>
                 if length toolResults > 0
                 then
                   (case mapThrowing toolResultValue toolResults of
                      Inl error \<Rightarrow> Inl error
                    | Inr vals \<Rightarrow>
                        (let toolResultValues =
                               joinLines (map the
                                 (filter (\<lambda>val. val \<noteq> None \<and> trim (the val) \<noteq> []) vals))
                         in if toolResultValues \<noteq> [] then Inr toolResultValues
                            else Inr fallbackReply))
                 else Inr fallbackReply)
          else Inr fallbackReply)"

text \<open>
  Lines 302-341: the statements of the \<^verbatim>\<open>try\<close> block after the engine has returned.
  When \<^verbatim>\<open>result.text\<close> is falsy the result is first written to the log with
  \<^verbatim>\<open>JSON.stringify\<close>, which may throw.
\<close>

definition replyOf :: "TextResult \<Rightarrow> caught + string" where
  "replyOf result =
     (let logged =
            (case tr_text result of
               TextMissing \<Rightarrow> tr_json result
             | TextString text \<Rightarrow> if text = [] then tr_json result else Inr []
             | TextOther error \<Rightarrow> Inr [])
      in case logged of
           Inl error \<Rightarrow> Inl error
         | Inr line \<Rightarrow>
             (case tr_text result of
                TextOther error \<Rightarrow> Inl error
              | TextString text \<Rightarrow>
                  if text \<noteq> [] \<and> trim text \<noteq> [] then Inr (trim text)
                  else toolResultsReply result
              | TextMissing \<Rightarrow> toolResultsReply result))"

text \<open>Lines 167-177: the system prompt around the schedule prompt.\<close>

definition systemPromptOf :: "string \<Rightarrow> string" where
  "systemPromptOf schedule =
     ''You are a helpful assistant responding via Slack. Keep responses concise and conversational.'' @
     [CHR 0x0A, CHR 0x0A] @ schedule @ [CHR 0x0A, CHR 0x0A] @
     ''You have access to various tools and built-in knowledge. You can provide weather information for any location using your built-in capabilities.'' @
     [CHR 0x0A] @
     ''You can help with various tasks including:'' @ [CHR 0x0A] @
     ''- Getting local time (use getLocalTime tool)'' @ [CHR 0x0A] @
     ''- Managing reminders (use getReminders and captureReminder tools)'' @ [CHR 0x0A] @
     ''- Weather information - you have built-in weather capabilities and can provide current conditions, forecasts, and temperatures for any location worldwide'' @
     [CHR 0x0A, CHR 0x0A] @
     ''Be friendly and helpful.''"

text \<open>
  \<^verbatim>\<open>generateSlackResponse\<close>. \<open>getSchedulePrompt\<close> is what the call of the library
  function of that name does, before the credential is looked at and outside the
  \<^verbatim>\<open>try\<close>: it gives the schedule prompt or throws.
  \<open>generateText apiKey systemPrompt userId prompt\<close> is the call of the completion engine
  with the tools of this user, which returns a result or throws. The result says what
  the function returned (\<open>Inl\<close> is an exception leaving it) and how often it called
  the engine.
\<close>

record RespondResult =
  rr_reply :: "caught + string"
  rr_engineCalls :: nat

definition generateSlackResponse ::
  "(caught + string) \<Rightarrow> (string \<Rightarrow> string \<Rightarrow> string \<Rightarrow> string \<Rightarrow> caught + TextResult) \<Rightarrow> string
     \<Rightarrow> string option \<Rightarrow> string \<Rightarrow> RespondResult"
where
  "generateSlackResponse getSchedulePrompt generateText userMessage apiKey userId =
     (case getSchedulePrompt of
        Inl error \<Rightarrow> \<lparr>rr_reply = Inl error, rr_engineCalls = 0\<rparr>
      | Inr schedule \<Rightarrow>
          (let systemPrompt = systemPromptOf schedule
           in if \<not> truthy apiKey
              then \<lparr>rr_reply =
                      Inr ''Sorry, the AI service is not configured. Please check server settings.'',
                    rr_engineCalls = 0\<rparr>
              else
                (let attempt =
                       (case generateText (the apiKey) systemPrompt userId userMessage of
                          Inl error \<Rightarrow> Inl error
                        | Inr result \<Rightarrow> replyOf result)
                 in \<lparr>rr_reply =
                        (case attempt of
                           Inr reply \<Rightarrow> Inr reply
                         | Inl error \<Rightarrow>
                             (case caughtMessage error of
                                Inl failure \<Rightarrow> Inl failure
                              | Inr message \<Rightarrow> Inr (''Sorry, I encountered an error: '' @ message))),
                      rr_engineCalls = 1\<rparr>)))"

text \<open>
  The extraction policy in the words of the specification, for comparison:
  \<open>shownValue\<close> is the string a tool result shows (its \<^verbatim>\<open>value\<close>, else its
  \<^verbatim>\<open>result\<close>, else its \<^verbatim>\<open>output\<close>, else the raw string); \<open>expectedReply\<close> prefers the
  trimmed text, then the shown values that are not blank, joined by line feeds, when
  tools were invoked, then the fixed message. \<open>wellFormed\<close> holds of a result that
  reading throws nothing from; \<open>throwsPrintable\<close> holds when whatever reading it may
  throw converts to a string.
\<close>

fun shownValue :: "tool_result \<Rightarrow> string option" where
  "shownValue (ResultObject (Some (Stringable shown)) res out) = Some shown"
| "shownValue (ResultObject None (Some (Stringable shown)) out) = Some shown"
| "shownValue (ResultObject None None (Some (Stringable shown))) = Some shown"
| "shownValue (ResultString raw) = Some raw"
| "shownValue other = None"

definition expectedReply :: "TextResult \<Rightarrow> string" where
  "expectedReply result =
     (let direct = (case tr_text result of TextString text \<Rightarrow> trim text | other \<Rightarrow> []);
          invoked = (case tr_toolCalls result of Some calls \<Rightarrow> calls > 0 | None \<Rightarrow> False);
          shown =
            (case tr_toolResults result of
               Some toolResults \<Rightarrow>
                 filter (\<lambda>text. trim text \<noteq> []) (List.map_filter shownValue toolResults)
             | None \<Rightarrow> [])
      in if direct \<noteq> [] then direct
         else if invoked \<and> shown \<noteq> [] then joinLines shown
         else ''I processed your request but have no text response. Please try rephrasing your request.'')"

fun isPrintable :: "caught \<Rightarrow> bool" where
  "isPrintable (Printable error) = True"
| "isPrintable (Unprintable error) = False"

fun quietValue :: "js_value option \<Rightarrow> bool" where
  "quietValue (Some (Unstringable error)) = False"
| "quietValue other = True"

fun quietResult :: "tool_result \<Rightarrow> bool" where
  "quietResult (ResultObject val res out) = (quietValue val \<and> quietValue res \<and> quietValue out)"
| "quietResult (ResultString raw) = True"
| "quietResult (ResultNull error) = False"

definition wellFormed :: "TextResult \<Rightarrow> bool" where
  "wellFormed result \<longleftrightarrow>
     (case tr_text result of TextOther error \<Rightarrow> False | other \<Rightarrow> True) \<and>
     (case tr_json result of Inl error \<Rightarrow> False | Inr line \<Rightarrow> True) \<and>
     (case tr_toolResults result of Some toolResults \<Rightarrow> list_all quietResult toolResults
      | None \<Rightarrow> True)"

fun printableValue :: "js_value option \<Rightarrow> bool" where
  "printableValue (Some (Unstringable error)) = isPrintable error"
| "printableValue other = True"

fun printableResult :: "tool_result \<Rightarrow> bool" where
  "printableResult (ResultObject val res out) =
     (printableValue val \<and> printableValue res \<and> printableValue out)"
| "printableResult (ResultString raw) = True"
| "printableResult (ResultNull error) = isPrintable error"

definition throwsPrintable :: "TextResult \<Rightarrow> bool" where
  "throwsPrintable result \<longleftrightarrow>
     (case tr_text result of TextOther error \<Rightarrow> isPrintable error | other \<Rightarrow> True) \<and>
     (case tr_json result of Inl error \<Rightarrow> isPrintable error | Inr line \<Rightarrow> True) \<and>
     (case tr_toolResults result of Some toolResults \<Rightarrow> list_all printableResult toolResults
      | None \<Rightarrow> True)"

text \<open>
  An engine that throws a value whose conversion to a string throws a
  \<^verbatim>\<open>TypeError\<close>, and one that returns tool results and no text.
\<close>

definition opaqueEngine :: "string \<Rightarrow> string \<Rightarrow> string \<Rightarrow> string \<Rightarrow> caught + TextResult" where
  "opaqueEngine apiKey systemPrompt userId prompt =
     Inl (Unprintable (Printable (JsError ''Cannot convert object to primitive value'')))"

definition toolEngine :: "string \<Rightarrow> string \<Rightarrow> string \<Rightarrow> string \<Rightarrow> caught + TextResult" where
  "toolEngine apiKey systemPrompt userId prompt =
     Inr \<lparr>tr_text = TextString '' '', tr_toolCalls = Some 2,
          tr_toolResults =
            Some [ResultObject None (Some (Stringable ''10am'')) None, ResultString ''saved''],
          tr_json = Inr ''{}''\<rparr>"

definition failingEngine :: "string \<Rightarrow> string \<Rightarrow> string \<Rightarrow> string \<Rightarrow> caught + TextResult" where
  "failingEngine apiKey systemPrompt userId prompt = Inl (Printable (JsError ''engine down''))"

section \<open>Event dispatcher\<close>

record SlackEvent =
  ev_type :: string
  ev_text :: "string option"
  ev_user :: "string option"
  ev_channel :: "string option"
  ev_channel_type :: "string option"
  ev_thread_ts :: "string option"
  ev_ts :: "string option"
  ev_bot_id :: "string option"

record SlackEventPayload =
  pl_type :: string
  pl_challenge :: "string option"
  pl_event :: "SlackEvent option"
  pl_token :: "string option"

record SlackEnv =
  SLACK_BOT_TOKEN :: "string option"
  SLACK_SIGNING_SECRET :: "string option"
  REMINDERS_KV :: blobStore
  arky_reminders :: blobStore
  GOOGLE_GENERATIVE_AI_API_KEY :: "string option"
  SLACK_EVENTS_KV :: "blobStore option"

text \<open>
  The request: its method, the two signature headers and its body. The response: its
  status and its body.
\<close>

record Request =
  rq_method :: string
  rq_timestamp :: "string option"
  rq_signature :: "string option"
  rq_body :: string

record Response =
  rs_status :: nat
  rs_body :: string

text \<open>The arguments of the background task the handler starts.\<close>

record BackgroundTask =
  bt_userText :: string
  bt_channelId :: string
  bt_threadTs :: "string option"
  bt_userId :: string

text \<open>
  What one call of the handler did: the response, the environment with its stores as
  the call left them, the background task it started if any, and whether it handed the
  task to \<^verbatim>\<open>ctx.waitUntil\<close>.
\<close>

record HandlerResult =
  hr_response :: Response
  hr_env :: SlackEnv
  hr_background :: "BackgroundTask option"
  hr_waitUntil :: bool

text \<open>
  \<^verbatim>\<open>text.replace(/<@[A-Z0-9]+>/gi, "")\<close>: at every position, from left to right, a match
  is \<^verbatim>\<open><@\<close>, the longest run of letters and digits (not empty), and \<^verbatim>\<open>>\<close>; a match is
  dropped and the scan goes on behind it.
\<close>

definition isMentionChar :: "char \<Rightarrow> bool" where
  "isMentionChar c =
     (let n = (of_char c :: nat)
      in (48 \<le> n \<and> n \<le> 57) \<or> (65 \<le> n \<and> n \<le> 90) \<or> (97 \<le> n \<and> n \<le> 122))"

definition matchMention :: "string \<Rightarrow> string option" where
  "matchMention s =
     (if take 2 s = ''<@''
      then
        (let ident = takeWhile isMentionChar (drop 2 s);
             after = dropWhile isMentionChar (drop 2 s)
         in if ident \<noteq> [] \<and> take 1 after = ''>'' then Some (drop 1 after) else None)
      else None)"

lemma matchMention_shorter: "matchMention s = Some rest \<Longrightarrow> length rest < length s"
proof -
  assume m: "matchMention s = Some rest"
  then have "rest = drop 1 (dropWhile isMentionChar (drop 2 s))" and "take 2 s = ''<@''"
    by (auto simp: matchMention_def Let_def split: if_splits)
  moreover have "length (dropWhile isMentionChar (drop 2 s)) \<le> length (drop 2 s)"
    by (rule length_dropWhile_le)
  moreover have "2 \<le> length s"
    using \<open>take 2 s = ''<@''\<close> by (cases s; cases "tl s") auto
  ultimately show ?thesis by simp
qed

function stripMentions :: "string \<Rightarrow> string" where
  "stripMentions [] = []"
| "stripMentions (c # cs) =
     (case matchMention (c # cs) of
        Some rest \<Rightarrow> stripMentions rest
      | None \<Rightarrow> c # stripMentions cs)"
  by pat_completeness auto
termination
  by (relation "measure length") (auto dest: matchMention_shorter)

declare stripMentions.simps [simp del]

text \<open>Lines 433-451: the text, the channel and the reply thread of the event.\<close>

definition extractMessage :: "SlackEvent \<Rightarrow> string option \<times> string option \<times> string option" where
  "extractMessage event =
     (if ev_type event = ''message'' \<and> ev_channel_type event = Some ''im''
      then (ev_text event, ev_channel event, ev_thread_ts event)
      else if ev_type event = ''app_mention''
      then (map_option (\<lambda>text. trim (stripMentions text)) (ev_text event),
            ev_channel event, ev_ts event)
      else (None, None, None))"

text \<open>The decimal digits of \<^verbatim>\<open>Date.now()\<close> inside a template string.\<close>

fun showNat :: "nat \<Rightarrow> string" where
  "showNat n =
     (if n < 10 then [char_of (48 + n)] else showNat (n div 10) @ [char_of (48 + n mod 10)])"

declare showNat.simps [simp del]

definition showInt :: "int \<Rightarrow> string" where
  "showInt i = (if i < 0 then CHR ''-'' # showNat (nat (- i)) else showNat (nat i))"

text \<open>
  Lines 416-419: the idempotency key of an event. The clock is read once per call in the
  model; the source reads it again here, which matters only for an event without
  \<^verbatim>\<open>ts\<close>.
\<close>

definition eventKeyOf :: "int \<Rightarrow> SlackEvent \<Rightarrow> string" where
  "eventKeyOf nowMs event =
     (let eventId =
            (if truthy (ev_ts event) then the (ev_ts event)
             else ev_type event @ ''-'' @
                  (case ev_user event of None \<Rightarrow> ''undefined'' | Some user \<Rightarrow> user) @
                  ''-'' @ showInt nowMs)
      in ''slack-event:'' @ eventId)"

text \<open>
  \<^verbatim>\<open>env.SLACK_EVENTS_KV || env.REMINDERS_KV\<close>, read and written. The 24 hour expiry of
  a mark is not modelled: calls are less than a day apart.
\<close>

definition idempotencyGet :: "SlackEnv \<Rightarrow> string \<Rightarrow> string option" where
  "idempotencyGet env key =
     (case SLACK_EVENTS_KV env of Some kv \<Rightarrow> kv key | None \<Rightarrow> REMINDERS_KV env key)"

definition idempotencyPut :: "SlackEnv \<Rightarrow> string \<Rightarrow> string \<Rightarrow> SlackEnv" where
  "idempotencyPut env key val =
     (case SLACK_EVENTS_KV env of
        Some kv \<Rightarrow> env\<lparr>SLACK_EVENTS_KV := Some (kv(key \<mapsto> val))\<rparr>
      | None \<Rightarrow> env\<lparr>REMINDERS_KV := (REMINDERS_KV env)(key \<mapsto> val)\<rparr>)"

definition respond :: "nat \<Rightarrow> string \<Rightarrow> SlackEnv \<Rightarrow> HandlerResult" where
  "respond status body env =
     \<lparr>hr_response = \<lparr>rs_status = status, rs_body = body\<rparr>, hr_env = env,
      hr_background = None, hr_waitUntil = False\<rparr>"

text \<open>Lines 408-486: the branch of an event callback.\<close>

definition handleEventCallback :: "int \<Rightarrow> SlackEvent \<Rightarrow> SlackEnv \<Rightarrow> bool \<Rightarrow> HandlerResult" where
  "handleEventCallback nowMs event env ctx =
     (if truthy (ev_bot_id event) then respond 200 ''OK'' env
      else
        (let eventKey = eventKeyOf nowMs event;
             processedEvent = idempotencyGet env eventKey
         in if truthy processedEvent then respond 200 ''OK'' env
            else
              (let env' = idempotencyPut env eventKey ''processed'';
                   (userText, channelId, threadTs) = extractMessage event
               in if truthy userText \<and> truthy channelId \<and> truthy (ev_user event)
                  then
                    \<lparr>hr_response = \<lparr>rs_status = 200, rs_body = ''OK''\<rparr>,
                     hr_env = env',
                     hr_background =
                       Some \<lparr>bt_userText = the userText, bt_channelId = the channelId,
                             bt_threadTs = threadTs, bt_userId = the (ev_user event)\<rparr>,
                     hr_waitUntil = ctx\<rparr>
                  else respond 200 ''OK'' env')))"

text \<open>
  \<^verbatim>\<open>handleSlackEvent\<close>. \<open>jsonParse\<close> is \<^verbatim>\<open>JSON.parse\<close> read at the type
  \<^verbatim>\<open>SlackEventPayload\<close> (\<open>None\<close> when it throws), \<open>ctx\<close> says whether an execution
  context was passed.
\<close>

definition handleSlackEvent ::
  "(string \<Rightarrow> string \<Rightarrow> 8 word list) \<Rightarrow> (string \<Rightarrow> SlackEventPayload option) \<Rightarrow> int
     \<Rightarrow> Request \<Rightarrow> SlackEnv \<Rightarrow> bool \<Rightarrow> HandlerResult"
where
  "handleSlackEvent hmacSha256 jsonParse nowMs request env ctx =
     (if rq_method request \<noteq> ''POST'' then respond 405 ''Method not allowed'' env
      else if \<not> truthy (SLACK_SIGNING_SECRET env) \<or> \<not> truthy (SLACK_BOT_TOKEN env)
      then respond 500 ''Server configuration error'' env
      else if \<not> truthy (rq_timestamp request) \<or> \<not> truthy (rq_signature request)
      then respond 400 ''Missing Slack headers'' env
      else if \<not> verifySlackRequest hmacSha256 nowMs (the (SLACK_SIGNING_SECRET env))
                  (the (rq_timestamp request)) (rq_body request) (the (rq_signature request))
      then respond 401 ''Invalid signature'' env
      else
        (case jsonParse (rq_body request) of
           None \<Rightarrow> respond 400 ''Invalid JSON'' env
         | Some payload \<Rightarrow>
             if pl_type payload = ''url_verification''
             then respond 200 (case pl_challenge payload of None \<Rightarrow> [] | Some c \<Rightarrow> c) env
             else if pl_type payload = ''event_callback'' \<and> pl_event payload \<noteq> None
             then handleEventCallback nowMs (the (pl_event payload)) env ctx
             else respond 200 ''OK'' env))"

text \<open>
  A request that reaches the event-callback branch with the given event, which no bot
  sent: it is a POST, the secrets are configured, the headers are present, the
  signature verifies, and the body parses to an event callback holding the event.
\<close>

definition acceptedEvent ::
  "(string \<Rightarrow> string \<Rightarrow> 8 word list) \<Rightarrow> (string \<Rightarrow> SlackEventPayload option) \<Rightarrow> int
     \<Rightarrow> Request \<Rightarrow> SlackEnv \<Rightarrow> SlackEvent \<Rightarrow> bool"
where
  "acceptedEvent hmacSha256 jsonParse nowMs request env event \<longleftrightarrow>
     rq_method request = ''POST'' \<and>
     truthy (SLACK_SIGNING_SECRET env) \<and> truthy (SLACK_BOT_TOKEN env) \<and>
     truthy (rq_timestamp request) \<and> truthy (rq_signature request) \<and>
     verifySlackRequest hmacSha256 nowMs (the (SLACK_SIGNING_SECRET env))
       (the (rq_timestamp request)) (rq_body request) (the (rq_signature request)) \<and>
     (\<exists>payload. jsonParse (rq_body request) = Some payload \<and>
        pl_type payload = ''event_callback'' \<and> pl_event payload = Some event) \<and>
     \<not> truthy (ev_bot_id event)"

text \<open>
  The extraction of the mention branch in the words of the specification, for
  comparison: only a leading token is removed, and its id is upper-case letters and
  digits.
\<close>

definition isUpperAlnum :: "char \<Rightarrow> bool" where
  "isUpperAlnum c =
     (let n = (of_char c :: nat) in (48 \<le> n \<and> n \<le> 57) \<or> (65 \<le> n \<and> n \<le> 90))"

definition stripLeadingMention :: "string \<Rightarrow> string" where
  "stripLeadingMention text =
     (if take 2 text = ''<@''
      then
        (let ident = takeWhile isUpperAlnum (drop 2 text);
             after = dropWhile isUpperAlnum (drop 2 text)
         in if ident \<noteq> [] \<and> take 1 after = ''>'' then drop 1 after else text)
      else text)"

text \<open>Line 454: the event gives a text, a channel and a user to answer.\<close>

definition usable :: "SlackEvent \<Rightarrow> bool" where
  "usable event \<longleftrightarrow>
     truthy (fst (extractMessage event)) \<and> truthy (fst (snd (extractMessage event))) \<and>
     truthy (ev_user event)"

section \<open>Sample inputs\<close>

text \<open>
  A digest function, an environment with empty stores, a request whose signature
  verifies under that digest, and events: a message in a public channel, a direct
  message, and two mentions.
\<close>

definition exampleHmac :: "string \<Rightarrow> string \<Rightarrow> 8 word list" where
  "exampleHmac key message = [171, 1]"

definition exampleEnv :: SlackEnv where
  "exampleEnv =
     \<lparr>SLACK_BOT_TOKEN = Some ''xoxb'', SLACK_SIGNING_SECRET = Some ''secret'',
      REMINDERS_KV = Map.empty, arky_reminders = Map.empty,
      GOOGLE_GENERATIVE_AI_API_KEY = Some ''key'', SLACK_EVENTS_KV = None\<rparr>"

definition exampleRequest :: Request where
  "exampleRequest =
     \<lparr>rq_method = ''POST'', rq_timestamp = Some ''1700000000'',
      rq_signature = Some ''v0=ab01'', rq_body = ''body''\<rparr>"

definition channelMessage :: SlackEvent where
  "channelMessage =
     \<lparr>ev_type = ''message'', ev_text = Some ''hello there'', ev_user = Some ''U1'',
      ev_channel = Some ''C1'', ev_channel_type = Some ''channel'', ev_thread_ts = None,
      ev_ts = Some ''1700000000.000100'', ev_bot_id = None\<rparr>"

definition directMessage :: SlackEvent where
  "directMessage =
     \<lparr>ev_type = ''message'', ev_text = Some ''hello there'', ev_user = Some ''U1'',
      ev_channel = Some ''D1'', ev_channel_type = Some ''im'', ev_thread_ts = None,
      ev_ts = Some ''1700000000.000200'', ev_bot_id = None\<rparr>"

definition exampleParse :: "SlackEvent \<Rightarrow> string \<Rightarrow> SlackEventPayload option" where
  "exampleParse event body =
     Some \<lparr>pl_type = ''event_callback'', pl_challenge = None, pl_event = Some event,
           pl_token = None\<rparr>"

definition linkMentionEvent :: SlackEvent where
  "linkMentionEvent =
     \<lparr>ev_type = ''app_mention'', ev_text = Some ''see <http://x.io> and <@u9> too'',
      ev_user = Some ''U1'', ev_channel = Some ''C1'', ev_channel_type = None,
      ev_thread_ts = None, ev_ts = Some ''1700000000.000500'', ev_bot_id = None\<rparr>"

definition twoMentionsEvent :: SlackEvent where
  "twoMentionsEvent =
     \<lparr>ev_type = ''app_mention'', ev_text = Some ''<@BOT123> ask <@U456> now'',
      ev_user = Some ''U1'', ev_channel = Some ''C1'', ev_channel_type = None,
      ev_thread_ts = None, ev_ts = Some ''1700000000.000400'', ev_bot_id = None\<rparr>"

section \<open>Properties of the signature verifier\<close>

lemma charCodeAt_eq_iff:
  assumes "i < length a" "i < length b"
  shows "charCodeAt a i XOR charCodeAt b i = 0 \<longleftrightarrow> a ! i = b ! i"
proof -
  have bound: "(of_char c :: nat) < 2 ^ 32" for c
  proof -
    have "(of_char c :: nat) mod 256 < 256" by simp
    then have "(of_char c :: nat) < 256" by (simp only: of_char_mod_256)
    moreover have "(256 :: nat) < 2 ^ 32" by simp
    ultimately show ?thesis by (rule less_trans)
  qed
  have "(word_of_nat (of_char c) :: 32 word) = word_of_nat (of_char d) \<longleftrightarrow> c = d" for c d
  proof
    assume "(word_of_nat (of_char c) :: 32 word) = word_of_nat (of_char d)"
    then have "unat (word_of_nat (of_char c) :: 32 word) = unat (word_of_nat (of_char d) :: 32 word)"
      by simp
    then have "(of_char c :: nat) = of_char d"
      using bound [of c] bound [of d] by (simp add: unat_of_nat)
    then show "c = d" by simp
  qed simp
  moreover have "x XOR y = 0 \<longleftrightarrow> x = y" for x y :: "32 word"
    by (metis bit.xor_left_self xor.right_neutral)
  ultimately show ?thesis using assms by (simp add: charCodeAt_def)
qed

lemma foldl_or_zero:
  "foldl (\<lambda>r i. r OR f i) (r0 :: 32 word) is = 0 \<longleftrightarrow> r0 = 0 \<and> (\<forall>i \<in> set is. f i = 0)"
  by (induction "is" arbitrary: r0) (auto simp: or_eq_0_iff)

lemma constantTimeEqual_iff: "constantTimeEqual a b \<longleftrightarrow> a = b"
proof (cases "length a = length b")
  case False
  then show ?thesis by (auto simp: constantTimeEqual_def)
next
  case True
  have "xorAccumulate a b = 0 \<longleftrightarrow> (\<forall>i < length a. a ! i = b ! i)"
    using True by (auto simp: xorAccumulate_def foldl_or_zero charCodeAt_eq_iff)
  then show ?thesis
    using True by (auto simp: constantTimeEqual_def intro: nth_equalityI)
qed

lemma verifySlackRequest_unfold:
  "verifySlackRequest hmacSha256 nowMs signingSecret timestamp body signature \<longleftrightarrow>
     \<not> timestampTooOld (nowMs div 1000) (parseInt timestamp) \<and>
     signature = ''v0='' @ hashHex (hmacSha256 signingSecret (''v0:'' @ timestamp @ '':'' @ body))"
  by (auto simp: verifySlackRequest_def Let_def constantTimeEqual_iff)

lemmas parseInt_eval =
  parseInt_def isWhiteSpace_def isRadixDigit_def digitValue_def mathInt_def Let_def

lemmas hashHex_eval = hashHex_def toHex2_def hexDigit_def

lemma hexDigit_facts:
  "n < 16 \<Longrightarrow> hexDigit n \<in> set ''0123456789abcdef'' \<and> digitValue (hexDigit n) = Some n"
proof -
  have "\<forall>n < 16. hexDigit n \<in> set ''0123456789abcdef'' \<and> digitValue (hexDigit n) = Some n"
    by (simp add: eval_nat_numeral All_less_Suc hexDigit_def digitValue_def)
  then show "n < 16 \<Longrightarrow> hexDigit n \<in> set ''0123456789abcdef'' \<and> digitValue (hexDigit n) = Some n"
    by blast
qed

lemma unat_byte_div: "unat (b :: 8 word) div 16 < 16"
proof -
  have "unat b < 256" using unsigned_less [of b, where ?'a = nat] by simp
  then show ?thesis by simp
qed

lemma toHex2_alphabet: "set (toHex2 b) \<subseteq> set ''0123456789abcdef''"
  using hexDigit_facts [OF unat_byte_div [of b]] hexDigit_facts [of "unat b mod 16"]
  by (simp add: toHex2_def)

lemma toHex2_value: "mathInt 16 (toHex2 b) = uint b"
proof -
  have "mathInt 16 (toHex2 b) = int (unat b div 16) * 16 + int (unat b mod 16)"
    using hexDigit_facts [OF unat_byte_div [of b]] hexDigit_facts [of "unat b mod 16"]
    by (simp add: toHex2_def mathInt_def)
  also have "\<dots> = int (unat b)"
    by (simp add: zdiv_int zmod_int)
  finally show ?thesis by simp
qed

lemma length_hashHex: "length (hashHex bs) = 2 * length bs"
  by (induction bs) (simp_all add: hashHex_def toHex2_def)

lemma hashHex_alphabet: "set (hashHex bs) \<subseteq> set ''0123456789abcdef''"
proof -
  define A where "A = set ''0123456789abcdef''"
  have "set (toHex2 b) \<subseteq> A" for b
    unfolding A_def by (rule toHex2_alphabet)
  then have "set (hashHex bs) \<subseteq> A"
    by (auto simp: hashHex_def)
  then show ?thesis by (simp only: A_def)
qed

lemma drop_hashHex: "drop (2 * i) (hashHex bs) = hashHex (drop i bs)"
proof (induction bs arbitrary: i)
  case Nil
  then show ?case by (simp add: hashHex_def)
next
  case (Cons b bs)
  show ?case
  proof (cases i)
    case 0
    then show ?thesis by simp
  next
    case (Suc j)
    have "drop (2 * Suc j) (toHex2 b @ hashHex bs) = drop (2 * j) (hashHex bs)"
      by (simp add: toHex2_def)
    then show ?thesis using Cons.IH [of j] Suc by (simp add: hashHex_def)
  qed
qed

lemma hashHex_byte:
  assumes "i < length bs"
  shows "mathInt 16 (take 2 (drop (2 * i) (hashHex bs))) = uint (bs ! i)"
proof -
  have "drop i bs = bs ! i # drop (Suc i) bs"
    using assms by (simp add: Cons_nth_drop_Suc)
  then have "drop (2 * i) (hashHex bs) = hashHex (bs ! i # drop (Suc i) bs)"
    by (simp only: drop_hashHex)
  also have "\<dots> = toHex2 (bs ! i) @ hashHex (drop (Suc i) bs)"
    by (simp add: hashHex_def)
  finally have "take 2 (drop (2 * i) (hashHex bs)) = toHex2 (bs ! i)"
    by (simp add: toHex2_def)
  then show ?thesis by (simp add: toHex2_value)
qed

text \<open>
  C1: when the timestamp header parses as the number \<open>t\<close>, the verifier accepts exactly
  when the clock (in seconds) is within 300 of \<open>t\<close> and the provided signature is
  \<^verbatim>\<open>v0=\<close> followed by the hex encoding of the digest of \<^verbatim>\<open>v0:timestamp:body\<close>. The
  hex encoding of a digest has two characters per byte, all of them lower-case
  hexadecimal digits, and the two characters of each byte read in radix 16 give the
  byte. The length check with the accumulating loop accepts exactly equal strings, and
  a timestamp more than 300 seconds away is rejected whatever the signature.
\<close>

theorem verifySlackRequest_correct:
  assumes "parseInt timestamp = Some t"
  shows "(verifySlackRequest hmacSha256 nowMs signingSecret timestamp body signature \<longleftrightarrow>
            \<bar>nowMs div 1000 - t\<bar> \<le> 300 \<and>
            signature =
              ''v0='' @ hashHex (hmacSha256 signingSecret (''v0:'' @ timestamp @ '':'' @ body)))
         \<and> length (hashHex digest) = 2 * length digest
         \<and> set (hashHex digest) \<subseteq> set ''0123456789abcdef''
         \<and> (\<forall>i < length digest.
               mathInt 16 (take 2 (drop (2 * i) (hashHex digest))) = uint (digest ! i))
         \<and> (constantTimeEqual a b \<longleftrightarrow> a = b)
         \<and> (\<bar>nowMs div 1000 - t\<bar> > 300 \<longrightarrow>
              \<not> verifySlackRequest hmacSha256 nowMs signingSecret timestamp body signature)"
proof -
  have verdict: "verifySlackRequest hmacSha256 nowMs signingSecret timestamp body signature \<longleftrightarrow>
      \<bar>nowMs div 1000 - t\<bar> \<le> 300 \<and>
      signature = ''v0='' @ hashHex (hmacSha256 signingSecret (''v0:'' @ timestamp @ '':'' @ body))"
    using assms by (auto simp: verifySlackRequest_unfold timestampTooOld_def)
  have late: "\<bar>nowMs div 1000 - t\<bar> > 300 \<longrightarrow>
      \<not> verifySlackRequest hmacSha256 nowMs signingSecret timestamp body signature"
    using verdict by auto
  have bytes: "\<forall>i < length digest.
      mathInt 16 (take 2 (drop (2 * i) (hashHex digest))) = uint (digest ! i)"
    by (simp add: hashHex_byte)
  show ?thesis
    using verdict late bytes length_hashHex [of digest] hashHex_alphabet [of digest]
      constantTimeEqual_iff [of a b]
    by blast
qed

theorem verifySlackRequest_correct_witness:
  "parseInt ''1700000000'' = Some 1700000000 \<and>
   verifySlackRequest (\<lambda>key message. [171, 1]) 1700000100000
     ''secret'' ''1700000000'' ''{}'' ''v0=ab01'' \<and>
   \<not> verifySlackRequest (\<lambda>key message. [171, 1]) 1700000301000
     ''secret'' ''1700000000'' ''{}'' ''v0=ab01'' \<and>
   hashHex [171, 1] = ''ab01'' \<and>
   mathInt 16 (take 2 (drop (2 * 0) (hashHex [171, 1]))) = uint (171 :: 8 word)"
proof -
  have h: "parseInt ''1700000000'' = Some 1700000000"
    by (simp add: parseInt_eval)
  have d: "hashHex [171, 1] = ''ab01''"
    by (simp add: hashHex_eval)
  have inside: "verifySlackRequest (\<lambda>key message. [171, 1]) 1700000100000
      ''secret'' ''1700000000'' ''{}'' ''v0=ab01''"
    using d verifySlackRequest_correct [OF h, of "\<lambda>key message. [171, 1]" 1700000100000
        "''secret''" "''{}''" "''v0=ab01''" "[]" "[]" "[]"]
    by simp
  have outside: "\<not> verifySlackRequest (\<lambda>key message. [171, 1]) 1700000301000
      ''secret'' ''1700000000'' ''{}'' ''v0=ab01''"
    using verifySlackRequest_correct [OF h, of "\<lambda>key message. [171, 1]" 1700000301000
        "''secret''" "''{}''" "''v0=ab01''" "[]" "[]" "[]"]
    by simp
  have "\<forall>i < length [171, 1 :: 8 word].
      mathInt 16 (take 2 (drop (2 * i) (hashHex [171, 1]))) = uint ([171, 1 :: 8 word] ! i)"
    using verifySlackRequest_correct [OF h, of "\<lambda>key message. [171, 1]" 1700000100000
        "''secret''" "''{}''" "''v0=ab01''" "[171, 1]" "[]" "[]"]
    by blast
  then have "0 < length [171, 1 :: 8 word] \<longrightarrow>
      mathInt 16 (take 2 (drop (2 * 0) (hashHex [171, 1]))) = uint ([171, 1 :: 8 word] ! 0)"
    by blast
  then have byte: "mathInt 16 (take 2 (drop (2 * 0) (hashHex [171, 1]))) = uint (171 :: 8 word)"
    by simp
  show ?thesis using h d inside outside byte by blast
qed

text \<open>
  C10: when the timestamp header does not parse as a number, the replay-window check
  rejects nothing, and the verdict is the signature comparison over the literal header
  string alone, whatever the clock says.
\<close>

theorem verifySlackRequest_nan_timestamp:
  assumes "parseInt timestamp = None"
  shows "verifySlackRequest hmacSha256 nowMs signingSecret timestamp body signature \<longleftrightarrow>
           signature =
             ''v0='' @ hashHex (hmacSha256 signingSecret (''v0:'' @ timestamp @ '':'' @ body))"
  using assms by (simp add: verifySlackRequest_unfold timestampTooOld_def)


theorem verifySlackRequest_nan_timestamp_witness:
  "parseInt ''soon'' = None \<and>
   verifySlackRequest (\<lambda>key message. [171, 1]) 9999999999000
     ''secret'' ''soon'' ''{}'' ''v0=ab01''"
proof -
  have h: "parseInt ''soon'' = None"
    by (simp add: parseInt_eval)
  have d: "hashHex [171, 1] = ''ab01''"
    by (simp add: hashHex_eval)
  have "verifySlackRequest (\<lambda>key message. [171, 1]) 9999999999000
      ''secret'' ''soon'' ''{}'' ''v0=ab01''"
    using d verifySlackRequest_nan_timestamp [OF h, of "\<lambda>key message. [171, 1]" 9999999999000
        "''secret''" "''{}''" "''v0=ab01''"]
    by simp
  with h show ?thesis by blast
qed

section \<open>Properties of the ledger\<close>

lemma splitLines_nonempty: "splitLines s \<noteq> []"
  by (induction s) (auto split: list.splits)

lemma splitLines_no_newline: "CHR 0x0A \<notin> set s \<Longrightarrow> splitLines s = [s]"
  by (induction s) auto

lemma splitLines_append:
  "splitLines (a @ b) =
     butlast (splitLines a) @ [last (splitLines a) @ hd (splitLines b)] @ tl (splitLines b)"
proof (induction a)
  case Nil
  then show ?case using splitLines_nonempty [of b] by (cases "splitLines b") auto
next
  case (Cons c cs)
  then show ?case
    using splitLines_nonempty [of cs] splitLines_nonempty [of "cs @ b"]
    by (cases "splitLines cs") (auto split: list.splits simp: butlast_append)
qed

lemma splitLines_entry:
  assumes "CHR 0x0A \<notin> set e"
  shows "splitLines (old @ e @ [CHR 0x0A]) =
           butlast (splitLines old) @ [last (splitLines old) @ e, []]"
proof -
  have "splitLines (e @ [CHR 0x0A]) = [e, []]"
    using assms by (induction e) auto
  then show ?thesis by (simp add: splitLines_append)
qed

lemma all_dropWhile_iff:
  "(\<forall>x \<in> set (dropWhile P s). P x) \<longleftrightarrow> (\<forall>x \<in> set s. P x)"
proof
  assume all: "\<forall>x \<in> set (dropWhile P s). P x"
  have "dropWhile P s = []"
  proof (cases "dropWhile P s")
    case Nil
    then show ?thesis .
  next
    case (Cons y ys)
    then have "\<not> P y" using hd_dropWhile [of P s] by simp
    moreover have "P y" using all Cons by simp
    ultimately show ?thesis by simp
  qed
  then show "\<forall>x \<in> set s. P x" by (simp add: dropWhile_eq_Nil_conv)
next
  assume "\<forall>x \<in> set s. P x"
  then show "\<forall>x \<in> set (dropWhile P s). P x" by (meson set_dropWhileD)
qed

lemma trim_eq_Nil_iff: "trim s = [] \<longleftrightarrow> (\<forall>c \<in> set s. isWhiteSpace c)"
  by (simp add: trim_def dropWhile_eq_Nil_conv all_dropWhile_iff)

lemma splitWhiteSpace_nonempty: "splitWhiteSpace s \<noteq> []"
  by (induction s rule: splitWhiteSpace.induct) (auto split: list.splits)

lemma splitWhiteSpace_parts:
  "(s \<noteq> [] \<and> isWhiteSpace (hd s) \<longrightarrow> hd (splitWhiteSpace s) = []) \<and>
   prefix (hd (splitWhiteSpace s)) s \<and> (\<forall>w \<in> set (tl (splitWhiteSpace s)). sublist w s)"
proof (induction s rule: splitWhiteSpace.induct)
  case 1
  then show ?case by simp
next
  case (2 c cs)
  show ?case
  proof (cases "isWhiteSpace c")
    case True
    then show ?thesis using 2 splitWhiteSpace_nonempty [of cs]
      by (cases "splitWhiteSpace cs") (auto simp: sublist_Cons_right)
  next
    case False
    then show ?thesis using 2 splitWhiteSpace_nonempty [of cs]
      by (cases "splitWhiteSpace cs") (auto simp: sublist_Cons_right)
  qed
qed

lemma splitWhiteSpace_sublist: "w \<in> set (splitWhiteSpace s) \<Longrightarrow> sublist w s"
  using splitWhiteSpace_parts [of s] splitWhiteSpace_nonempty [of s]
  by (cases "splitWhiteSpace s") auto


lemma toLowerCase_append: "toLowerCase (a @ b) = toLowerCase a @ toLowerCase b"
  by (simp add: toLowerCase_def)

lemma reminderWords_in_line:
  assumes "w \<in> set (reminderWordsOf reminder)"
  shows "includesStr (toLowerCase (pre @ reminder)) w"
proof -
  have "sublist w (toLowerCase reminder)"
    using assms by (auto simp: reminderWordsOf_def Let_def intro: splitWhiteSpace_sublist)
  then have "sublist w (toLowerCase pre @ toLowerCase reminder)"
    by (auto simp: sublist_append)
  then show ?thesis by (simp add: includesStr_def toLowerCase_append)
qed

lemma matchingWords_all:
  "matchingWords (reminderWordsOf reminder) (pre @ reminder) = reminderWordsOf reminder"
  by (simp add: matchingWords_def Let_def reminderWords_in_line)

lemma existingLines_after_entry:
  assumes "CHR 0x0A \<notin> set e" "\<exists>c \<in> set e. \<not> isWhiteSpace c"
  shows "existingLinesOf (old @ e @ [CHR 0x0A]) =
           filter (\<lambda>line. trim line \<noteq> []) (butlast (splitLines old)) @ [last (splitLines old) @ e]"
  using assms by (auto simp: existingLinesOf_def splitLines_entry trim_eq_Nil_iff)


lemma captureReminder_Saved_iff:
  "cr_outcome (captureReminder today userId bucket reminder) = Saved \<longleftrightarrow>
     similarEntriesOf (ledgerOf bucket userId) reminder = []"
  by (simp add: captureReminder_def Let_def)

lemma captureReminder_Saved_store:
  "similarEntriesOf (ledgerOf bucket userId) reminder = [] \<Longrightarrow>
     cr_store (captureReminder today userId bucket reminder) =
       bucket(r2KeyOf userId \<mapsto> ledgerOf bucket userId @ newEntryOf today reminder)"
  by (simp add: captureReminder_def Let_def)

lemma captureReminder_Similar:
  "similarEntriesOf (ledgerOf bucket userId) reminder \<noteq> [] \<Longrightarrow>
     cr_outcome (captureReminder today userId bucket reminder) =
       SimilarFound (similarEntriesOf (ledgerOf bucket userId) reminder) \<and>
     cr_store (captureReminder today userId bucket reminder) = bucket"
  by (simp add: captureReminder_def Let_def)

lemma ledgerOf_update: "ledgerOf (bucket(r2KeyOf userId \<mapsto> text)) userId = text"
  by (simp add: ledgerOf_def)

lemma similarEntries_after_entry:
  assumes nl: "CHR 0x0A \<notin> set today" "CHR 0x0A \<notin> set reminder"
    and two: "length (reminderWordsOf reminder) \<ge> 2"
    and none: "similarEntriesOf old reminder = []"
  shows "similarEntriesOf (old @ newEntryOf today reminder) reminder =
           [last (splitLines old) @ ''['' @ today @ ''] '' @ reminder]"
proof -
  define e where "e = ''['' @ today @ ''] '' @ reminder"
  define sim where "sim = (\<lambda>line. length (matchingWords (reminderWordsOf reminder) line) \<ge> 2)"
  define inked where "inked = (\<lambda>line. trim line \<noteq> [])"
  have e_nl: "CHR 0x0A \<notin> set e" using nl by (simp add: e_def)
  have e_ink: "\<exists>c \<in> set e. \<not> isWhiteSpace c" by (simp add: e_def isWhiteSpace_def)
  have lines: "existingLinesOf (old @ e @ [CHR 0x0A]) =
      filter inked (butlast (splitLines old)) @ [last (splitLines old) @ e]"
    unfolding inked_def by (rule existingLines_after_entry [OF e_nl e_ink])
  have "filter sim (filter inked (splitLines old)) = []"
    using none by (simp add: similarEntriesOf_def Let_def existingLinesOf_def sim_def inked_def)
  then have old_none: "\<forall>line \<in> set (splitLines old). inked line \<longrightarrow> \<not> sim line"
    by (auto simp: filter_empty_conv)
  have before: "filter sim (filter inked (butlast (splitLines old))) = []"
    using old_none by (auto simp: filter_empty_conv dest: in_set_butlastD)
  have "matchingWords (reminderWordsOf reminder)
          ((last (splitLines old) @ ''['' @ today @ ''] '') @ reminder) = reminderWordsOf reminder"
    by (rule matchingWords_all)
  then have new: "sim (last (splitLines old) @ e)"
    using two by (simp add: sim_def e_def)
  have "filter sim (existingLinesOf (old @ e @ [CHR 0x0A])) = [last (splitLines old) @ e]"
    unfolding lines using before new by simp
  moreover have "newEntryOf today reminder = e @ [CHR 0x0A]"
    by (simp add: newEntryOf_def e_def)
  ultimately have "similarEntriesOf (old @ newEntryOf today reminder) reminder = [last (splitLines old) @ e]"
    by (simp add: similarEntriesOf_def Let_def sim_def)
  then show ?thesis by (simp add: e_def)
qed

text \<open>
  C3, as amended: when the text has no line break and at least two significant words
  (counted with repetition), and the first append returns Saved, the second append of
  the same text returns SimilarFound with exactly the line the first append completed
  (the new entry, after any unterminated tail of the old ledger), and writes nothing.
\<close>

theorem captureReminder_second_similar:
  assumes "CHR 0x0A \<notin> set today" "CHR 0x0A \<notin> set reminder"
    and "length (reminderWordsOf reminder) \<ge> 2"
    and "cr_outcome (captureReminder today userId bucket reminder) = Saved"
  shows "cr_outcome (captureReminder today' userId
            (cr_store (captureReminder today userId bucket reminder)) reminder) =
           SimilarFound [last (splitLines (ledgerOf bucket userId)) @ ''['' @ today @ ''] '' @ reminder]
         \<and> cr_store (captureReminder today' userId
            (cr_store (captureReminder today userId bucket reminder)) reminder) =
           cr_store (captureReminder today userId bucket reminder)"
proof -
  let ?old = "ledgerOf bucket userId"
  let ?first = "captureReminder today userId bucket reminder"
  have none: "similarEntriesOf ?old reminder = []"
    using assms(4) by (simp add: captureReminder_Saved_iff)
  have store: "cr_store ?first = bucket(r2KeyOf userId \<mapsto> ?old @ newEntryOf today reminder)"
    by (rule captureReminder_Saved_store [OF none])
  have ledger: "ledgerOf (cr_store ?first) userId = ?old @ newEntryOf today reminder"
    by (simp add: store ledgerOf_update)
  have "similarEntriesOf (ledgerOf (cr_store ?first) userId) reminder =
          [last (splitLines ?old) @ ''['' @ today @ ''] '' @ reminder]"
    unfolding ledger by (rule similarEntries_after_entry [OF assms(1) assms(2) assms(3) none])
  then show ?thesis
    using captureReminder_Similar [of "cr_store ?first" userId reminder today'] by simp
qed

lemma captureReminder_outcome:
  "cr_outcome (captureReminder today userId bucket reminder) =
     (if similarEntriesOf (ledgerOf bucket userId) reminder = [] then Saved
      else SimilarFound (similarEntriesOf (ledgerOf bucket userId) reminder))"
  by (simp add: captureReminder_def Let_def)

lemma captureReminderTool_outcome:
  "map_sum id fst (captureReminderTool today True (Some namespace) (\<lambda>reminder. Inr text) reminder) =
     Inr (let content = (case namespace ''reminders.md'' of None \<Rightarrow> [] | Some content \<Rightarrow> content)
          in if similarEntriesOf content (trim text) = [] then Saved
             else SimilarFound (similarEntriesOf content (trim text)))"
  by (simp add: captureReminderTool_def Let_def)

text \<open>
  C3 as stated fails: a text with a single significant word is saved twice, and the
  ledger then holds the same line twice.
\<close>

theorem captureReminder_twice_counterexample:
  "cr_outcome (captureReminder ''2024-05-01'' ''U1'' Map.empty ''call Bob'') = Saved \<and>
   cr_outcome (captureReminder ''2024-05-01'' ''U1''
      (cr_store (captureReminder ''2024-05-01'' ''U1'' Map.empty ''call Bob'')) ''call Bob'') = Saved \<and>
   ledgerOf (cr_store (captureReminder ''2024-05-01'' ''U1''
      (cr_store (captureReminder ''2024-05-01'' ''U1'' Map.empty ''call Bob'')) ''call Bob'')) ''U1'' =
     ''[2024-05-01] call Bob'' @ [CHR 0x0A] @ ''[2024-05-01] call Bob'' @ [CHR 0x0A]"
  by code_simp

theorem captureReminder_second_similar_witness:
  "CHR 0x0A \<notin> set ''2024-05-01'' \<and> CHR 0x0A \<notin> set ''call Bob tomorrow'' \<and>
   2 \<le> length (reminderWordsOf ''call Bob tomorrow'') \<and>
   cr_outcome (captureReminder ''2024-05-01'' ''U1'' Map.empty ''call Bob tomorrow'') = Saved \<and>
   cr_outcome (captureReminder ''2024-05-02'' ''U1''
      (cr_store (captureReminder ''2024-05-01'' ''U1'' Map.empty ''call Bob tomorrow''))
      ''call Bob tomorrow'') = SimilarFound [''[2024-05-01] call Bob tomorrow''] \<and>
   cr_store (captureReminder ''2024-05-02'' ''U1''
      (cr_store (captureReminder ''2024-05-01'' ''U1'' Map.empty ''call Bob tomorrow''))
      ''call Bob tomorrow'') =
     cr_store (captureReminder ''2024-05-01'' ''U1'' Map.empty ''call Bob tomorrow'')"
proof -
  have h1: "CHR 0x0A \<notin> set ''2024-05-01''" by simp
  have h2: "CHR 0x0A \<notin> set ''call Bob tomorrow''" by simp
  have h3: "2 \<le> length (reminderWordsOf ''call Bob tomorrow'')" by code_simp
  have h4: "cr_outcome (captureReminder ''2024-05-01'' ''U1'' Map.empty ''call Bob tomorrow'') = Saved"
    by code_simp
  have tail: "last (splitLines (ledgerOf Map.empty ''U1'')) = []"
    by (simp add: ledgerOf_def)
  show ?thesis
    using h1 h2 h3 h4 captureReminder_second_similar [OF h1 h2 h3 h4, of "''2024-05-02''"]
    unfolding tail by simp
qed

lemma wordsFrom_split:
  "wordsFrom w s =
     filter (\<lambda>x. x \<noteq> []) ((w @ hd (splitWhiteSpace s)) # tl (splitWhiteSpace s))"
proof (induction s arbitrary: w)
  case Nil
  then show ?case by simp
next
  case (Cons c cs)
  obtain h t where sp: "splitWhiteSpace cs = h # t"
    using splitWhiteSpace_nonempty [of cs] by (cases "splitWhiteSpace cs") auto
  have empty: "wordsFrom [] cs = filter (\<lambda>x. x \<noteq> []) (h # t)"
    using Cons.IH [of "[]"] sp by simp
  show ?case
  proof (cases "isWhiteSpace c")
    case True
    show ?thesis
    proof (cases "cs \<noteq> [] \<and> isWhiteSpace (hd cs)")
      case True
      then have "h = []" using splitWhiteSpace_parts [of cs] sp by simp
      then show ?thesis
        using \<open>isWhiteSpace c\<close> True sp empty by simp
    next
      case False
      then show ?thesis
        using \<open>isWhiteSpace c\<close> sp empty by auto
    qed
  next
    case False
    then show ?thesis using Cons.IH [of "w @ [c]"] sp by simp
  qed
qed

lemma wordsOf_split: "wordsOf s = filter (\<lambda>x. x \<noteq> []) (splitWhiteSpace s)"
proof -
  have "(hd (splitWhiteSpace s)) # tl (splitWhiteSpace s) = splitWhiteSpace s"
    using splitWhiteSpace_nonempty [of s] by simp
  then show ?thesis
    using wordsFrom_split [of "[]" s] by (simp add: wordsOf_def)
qed

lemma reminderWordsOf_tokens: "reminderWordsOf reminder = significantTokens reminder"
proof -
  have "filter (\<lambda>word. 3 < length word) (filter (\<lambda>x. x \<noteq> []) xs) = filter (\<lambda>word. 3 < length word) xs"
    for xs :: "string list"
    by (induction xs) auto
  then show ?thesis
    by (simp add: reminderWordsOf_def significantTokens_def wordsOf_split Let_def)
qed

lemma matchingWords_count:
  "length (matchingWords (reminderWordsOf candidate) line) = sharedTokenCount candidate line"
  by (simp add: matchingWords_def Let_def includesStr_def sharedTokenCount_def reminderWordsOf_tokens)

lemma similarEntriesOf_flagged:
  "similarEntriesOf content candidate =
     filter (\<lambda>line. 2 \<le> sharedTokenCount candidate line)
       (filter (\<lambda>line. trim line \<noteq> []) (splitLines content))"
  by (simp add: similarEntriesOf_def Let_def existingLinesOf_def matchingWords_count)

lemma ledgerOf_key:
  "ledgerOf bucket userId =
     (case bucket (''reminders/'' @ userId @ ''/reminders.md'') of None \<Rightarrow> [] | Some text \<Rightarrow> text)"
  by (simp add: ledgerOf_def r2KeyOf_def)

text \<open>
  C4, as amended: for a line of the stored ledger that is not blank, with the
  candidate's significant tokens being the occurrences of its lower-cased
  white-space-separated words longer than 3 characters, each occurrence counted: when
  exactly one of them is a substring of the lower-cased line, no SimilarFound outcome
  lists the line; when two or more are, the outcome is SimilarFound and its list
  contains the line.
\<close>

theorem similarity_boundary:
  assumes "bucket (''reminders/'' @ userId @ ''/reminders.md'') = Some content"
    and "line \<in> set (splitLines content)" and "trim line \<noteq> []"
  shows "(sharedTokenCount candidate line = 1 \<longrightarrow>
            (\<forall>similar. cr_outcome (captureReminder today userId bucket candidate) = SimilarFound similar
               \<longrightarrow> line \<notin> set similar))
       \<and> (2 \<le> sharedTokenCount candidate line \<longrightarrow>
            (\<exists>similar. cr_outcome (captureReminder today userId bucket candidate) = SimilarFound similar
               \<and> line \<in> set similar))"
proof (intro conjI impI allI)
  have ledger: "ledgerOf bucket userId = content"
    using assms(1) by (simp add: ledgerOf_key)
  {
    fix similar
    assume one: "sharedTokenCount candidate line = 1"
      and out: "cr_outcome (captureReminder today userId bucket candidate) = SimilarFound similar"
    have "similar = similarEntriesOf content candidate"
      using out by (simp add: captureReminder_outcome ledger split: if_splits)
    then show "line \<notin> set similar"
      using one by (simp add: similarEntriesOf_flagged)
  }
  {
    assume two: "2 \<le> sharedTokenCount candidate line"
    then have mem: "line \<in> set (similarEntriesOf content candidate)"
      using assms(2,3) by (simp add: similarEntriesOf_flagged)
    then have "similarEntriesOf content candidate \<noteq> []"
      by auto
    then have "cr_outcome (captureReminder today userId bucket candidate) =
        SimilarFound (similarEntriesOf content candidate)"
      by (simp add: captureReminder_outcome ledger)
    with mem show "\<exists>similar. cr_outcome (captureReminder today userId bucket candidate) =
        SimilarFound similar \<and> line \<in> set similar"
      by blast
  }
qed

text \<open>
  C5: with \<open>old\<close> the text stored under the user's key (empty when there is none) and
  \<open>flagged\<close> its non-blank lines that share two or more significant token occurrences
  with the text: when a line is flagged, the append reports SimilarFound with these
  lines and leaves the store as it was; when none is, it reports Saved and replaces the
  stored text by \<open>old\<close> followed by the line \<^verbatim>\<open>[today] text\<close> and a line feed. In both
  cases \<open>old\<close> is a prefix of what is stored afterwards.
\<close>

theorem captureReminder_append_only:
  assumes "key = ''reminders/'' @ userId @ ''/reminders.md''"
    and "old = (case bucket key of None \<Rightarrow> [] | Some text \<Rightarrow> text)"
    and "flagged = filter (\<lambda>line. 2 \<le> sharedTokenCount reminder line)
           (filter (\<lambda>line. trim line \<noteq> []) (splitLines old))"
  shows "(flagged \<noteq> [] \<longrightarrow>
            cr_outcome (captureReminder today userId bucket reminder) = SimilarFound flagged \<and>
            cr_store (captureReminder today userId bucket reminder) = bucket)
       \<and> (flagged = [] \<longrightarrow>
            cr_outcome (captureReminder today userId bucket reminder) = Saved \<and>
            cr_store (captureReminder today userId bucket reminder) =
              bucket(key \<mapsto> old @ ''['' @ today @ ''] '' @ reminder @ [CHR 0x0A]))
       \<and> prefix old
            (case cr_store (captureReminder today userId bucket reminder) key of
               None \<Rightarrow> [] | Some text \<Rightarrow> text)"
proof -
  have ledger: "ledgerOf bucket userId = old"
    using assms(1,2) by (simp add: ledgerOf_key)
  have key: "r2KeyOf userId = key"
    using assms(1) by (simp add: r2KeyOf_def)
  have similar: "similarEntriesOf old reminder = flagged"
    using assms(3) by (simp add: similarEntriesOf_flagged)
  show ?thesis
  proof (cases "flagged = []")
    case True
    then have "similarEntriesOf (ledgerOf bucket userId) reminder = []"
      by (simp add: ledger similar)
    then have "cr_outcome (captureReminder today userId bucket reminder) = Saved"
      and "cr_store (captureReminder today userId bucket reminder) =
        bucket(key \<mapsto> old @ newEntryOf today reminder)"
      by (simp_all add: captureReminder_Saved_iff captureReminder_Saved_store ledger key)
    then show ?thesis using True by (simp add: newEntryOf_def)
  next
    case False
    then have "similarEntriesOf (ledgerOf bucket userId) reminder \<noteq> []"
      by (simp add: ledger similar)
    then have "cr_outcome (captureReminder today userId bucket reminder) = SimilarFound flagged"
      and "cr_store (captureReminder today userId bucket reminder) = bucket"
      using captureReminder_Similar [of bucket userId reminder today]
      by (simp_all add: ledger similar)
    then show ?thesis using False assms(2) by simp
  qed
qed

text \<open>
  C4 as stated fails: the candidate \<^verbatim>\<open>call call\<close> has one significant token, the line
  contains that one token, and the line is flagged, because the code counts the two
  occurrences of the word.
\<close>

theorem similarity_repeated_word_counterexample:
  "remdups (significantTokens ''call call'') = [''call''] \<and>
   sharedDistinctTokens ''call call'' ''[2024-05-01] call mom'' = [''call''] \<and>
   cr_outcome (captureReminder ''2024-05-02'' ''U1''
      [''reminders/U1/reminders.md'' \<mapsto> ''[2024-05-01] call mom'' @ [CHR 0x0A]] ''call call'') =
     SimilarFound [''[2024-05-01] call mom'']"
  by code_simp

theorem similarity_boundary_witness:
  "[''reminders/U1/reminders.md'' \<mapsto> ''[2024-05-01] call Bob tomorrow'' @ [CHR 0x0A]]
      (''reminders/'' @ ''U1'' @ ''/reminders.md'') =
     Some (''[2024-05-01] call Bob tomorrow'' @ [CHR 0x0A]) \<and>
   ''[2024-05-01] call Bob tomorrow'' \<in>
     set (splitLines (''[2024-05-01] call Bob tomorrow'' @ [CHR 0x0A])) \<and>
   trim ''[2024-05-01] call Bob tomorrow'' \<noteq> [] \<and>
   sharedTokenCount ''call Alice'' ''[2024-05-01] call Bob tomorrow'' = 1 \<and>
   cr_outcome (captureReminder ''2024-05-02'' ''U1''
      [''reminders/U1/reminders.md'' \<mapsto> ''[2024-05-01] call Bob tomorrow'' @ [CHR 0x0A]]
      ''call Alice'') \<noteq> SimilarFound [''[2024-05-01] call Bob tomorrow''] \<and>
   2 \<le> sharedTokenCount ''Please CALL tomorrow'' ''[2024-05-01] call Bob tomorrow'' \<and>
   (\<exists>similar. cr_outcome (captureReminder ''2024-05-02'' ''U1''
      [''reminders/U1/reminders.md'' \<mapsto> ''[2024-05-01] call Bob tomorrow'' @ [CHR 0x0A]]
      ''Please CALL tomorrow'') = SimilarFound similar \<and>
      ''[2024-05-01] call Bob tomorrow'' \<in> set similar)"
proof -
  let ?bucket = "[''reminders/U1/reminders.md'' \<mapsto> ''[2024-05-01] call Bob tomorrow'' @ [CHR 0x0A]]"
  let ?line = "''[2024-05-01] call Bob tomorrow''"
  have h1: "?bucket (''reminders/'' @ ''U1'' @ ''/reminders.md'') = Some (?line @ [CHR 0x0A])"
    by simp
  have h2: "?line \<in> set (splitLines (?line @ [CHR 0x0A]))" by code_simp
  have h3: "trim ?line \<noteq> []" by code_simp
  have one: "sharedTokenCount ''call Alice'' ?line = 1" by code_simp
  have two: "2 \<le> sharedTokenCount ''Please CALL tomorrow'' ?line" by code_simp
  have not_listed: "cr_outcome (captureReminder ''2024-05-02'' ''U1'' ?bucket ''call Alice'')
      \<noteq> SimilarFound [?line]"
    using one h1 h2 h3
      similarity_boundary [where bucket = ?bucket and userId = "''U1''"
        and content = "?line @ [CHR 0x0A]" and line = ?line and candidate = "''call Alice''"
        and today = "''2024-05-02''"]
    by auto
  have listed: "\<exists>similar. cr_outcome (captureReminder ''2024-05-02'' ''U1'' ?bucket
      ''Please CALL tomorrow'') = SimilarFound similar \<and> ?line \<in> set similar"
    using two h1 h2 h3
      similarity_boundary [where bucket = ?bucket and userId = "''U1''"
        and content = "?line @ [CHR 0x0A]" and line = ?line
        and candidate = "''Please CALL tomorrow''" and today = "''2024-05-02''"]
    by blast
  show ?thesis using h1 h2 h3 one two not_listed listed by blast
qed

theorem captureReminder_append_only_witness:
  "cr_outcome (captureReminder ''2024-05-02'' ''U1''
      [''reminders/U1/reminders.md'' \<mapsto> ''[2024-05-01] call Bob tomorrow'' @ [CHR 0x0A]]
      ''buy milk'') = Saved \<and>
   cr_store (captureReminder ''2024-05-02'' ''U1''
      [''reminders/U1/reminders.md'' \<mapsto> ''[2024-05-01] call Bob tomorrow'' @ [CHR 0x0A]]
      ''buy milk'') =
     [''reminders/U1/reminders.md'' \<mapsto>
        ''[2024-05-01] call Bob tomorrow'' @ [CHR 0x0A] @ ''[2024-05-02] buy milk'' @ [CHR 0x0A]] \<and>
   cr_outcome (captureReminder ''2024-05-02'' ''U1''
      [''reminders/U1/reminders.md'' \<mapsto> ''[2024-05-01] call Bob tomorrow'' @ [CHR 0x0A]]
      ''Please CALL tomorrow'') = SimilarFound [''[2024-05-01] call Bob tomorrow''] \<and>
   cr_store (captureReminder ''2024-05-02'' ''U1''
      [''reminders/U1/reminders.md'' \<mapsto> ''[2024-05-01] call Bob tomorrow'' @ [CHR 0x0A]]
      ''Please CALL tomorrow'') =
     [''reminders/U1/reminders.md'' \<mapsto> ''[2024-05-01] call Bob tomorrow'' @ [CHR 0x0A]]"
proof -
  let ?bucket = "[''reminders/U1/reminders.md'' \<mapsto> ''[2024-05-01] call Bob tomorrow'' @ [CHR 0x0A]]"
  let ?old = "''[2024-05-01] call Bob tomorrow'' @ [CHR 0x0A]"
  have key: "''reminders/U1/reminders.md'' = ''reminders/'' @ ''U1'' @ ''/reminders.md''" by simp
  have old: "?old = (case ?bucket ''reminders/U1/reminders.md'' of None \<Rightarrow> [] | Some text \<Rightarrow> text)"
    by simp
  have none: "[] = filter (\<lambda>line. 2 \<le> sharedTokenCount ''buy milk'' line)
      (filter (\<lambda>line. trim line \<noteq> []) (splitLines ?old))"
    by code_simp
  have some: "[''[2024-05-01] call Bob tomorrow''] =
      filter (\<lambda>line. 2 \<le> sharedTokenCount ''Please CALL tomorrow'' line)
      (filter (\<lambda>line. trim line \<noteq> []) (splitLines ?old))"
    by code_simp
  have saved: "cr_outcome (captureReminder ''2024-05-02'' ''U1'' ?bucket ''buy milk'') = Saved \<and>
      cr_store (captureReminder ''2024-05-02'' ''U1'' ?bucket ''buy milk'') =
        ?bucket(''reminders/U1/reminders.md'' \<mapsto>
          ?old @ ''['' @ ''2024-05-02'' @ ''] '' @ ''buy milk'' @ [CHR 0x0A])"
    using key old none
      captureReminder_append_only [where key = "''reminders/U1/reminders.md''"
        and userId = "''U1''" and old = ?old and bucket = ?bucket and flagged = "[]"
        and reminder = "''buy milk''" and today = "''2024-05-02''"]
    by blast
  have similar: "cr_outcome (captureReminder ''2024-05-02'' ''U1'' ?bucket ''Please CALL tomorrow'') =
        SimilarFound [''[2024-05-01] call Bob tomorrow''] \<and>
      cr_store (captureReminder ''2024-05-02'' ''U1'' ?bucket ''Please CALL tomorrow'') = ?bucket"
    using key old some
      captureReminder_append_only [where key = "''reminders/U1/reminders.md''"
        and userId = "''U1''" and old = ?old and bucket = ?bucket
        and flagged = "[''[2024-05-01] call Bob tomorrow'']"
        and reminder = "''Please CALL tomorrow''" and today = "''2024-05-02''"]
    by blast
  show ?thesis using saved similar by simp
qed

section \<open>Properties of the delivery client\<close>
















section \<open>Properties of the orchestrator\<close>

lemma toolResultValue_quiet: "quietResult r \<Longrightarrow> toolResultValue r = Inr (shownValue r)"
proof (cases r)
  case (ResultObject val res out)
  assume "quietResult r"
  then show ?thesis
    using ResultObject
    by (cases val; cases res; cases out)
       (auto split: js_value.splits elim: quietValue.elims)
qed simp_all

lemma mapThrowing_quiet:
  "list_all quietResult rs \<Longrightarrow> mapThrowing toolResultValue rs = Inr (map shownValue rs)"
  by (induction rs) (simp_all add: toolResultValue_quiet)

lemma shown_values:
  "map the (filter (\<lambda>val. val \<noteq> None \<and> P (the val)) (map f xs)) = filter P (List.map_filter f xs)"
  by (induction xs) (auto simp: List.map_filter_simps split: option.splits)

lemma joinLines_empty_iff:
  "\<forall>x \<in> set xs. x \<noteq> [] \<Longrightarrow> joinLines xs = [] \<longleftrightarrow> xs = []"
  by (induction xs rule: joinLines.induct) auto

lemma trim_nonempty: "trim x \<noteq> [] \<Longrightarrow> x \<noteq> []"
  by (auto simp: trim_def)

lemma toolResultsReply_wellFormed:
  assumes "wellFormed result"
  shows "toolResultsReply result =
     Inr (let invoked = (case tr_toolCalls result of Some calls \<Rightarrow> calls > 0 | None \<Rightarrow> False);
              shown =
                (case tr_toolResults result of
                   Some toolResults \<Rightarrow>
                     filter (\<lambda>text. trim text \<noteq> []) (List.map_filter shownValue toolResults)
                 | None \<Rightarrow> [])
          in if invoked \<and> shown \<noteq> [] then joinLines shown
             else ''I processed your request but have no text response. Please try rephrasing your request.'')"
proof (cases "tr_toolResults result")
  case None
  then show ?thesis
    by (simp add: toolResultsReply_def fallbackReply_def split: option.splits)
next
  case (Some rs)
  then have quiet: "list_all quietResult rs" using assms by (simp add: wellFormed_def)
  define shown where "shown = filter (\<lambda>text. trim text \<noteq> []) (List.map_filter shownValue rs)"
  have "\<forall>x \<in> set shown. x \<noteq> []" by (auto simp: shown_def dest: trim_nonempty)
  then have join: "joinLines shown = [] \<longleftrightarrow> shown = []" by (rule joinLines_empty_iff)
  have vals: "map the (filter (\<lambda>val. val \<noteq> None \<and> trim (the val) \<noteq> []) (map shownValue rs)) = shown"
    unfolding shown_def by (rule shown_values)
  have nil: "rs = [] \<Longrightarrow> shown = []" by (simp add: shown_def List.map_filter_simps)
  show ?thesis
    using Some nil join
    by (auto simp: toolResultsReply_def fallbackReply_def Let_def mapThrowing_quiet [OF quiet] vals
        shown_def [symmetric] simp del: not_None_eq split: option.splits)
qed

lemma replyOf_wellFormed:
  assumes "wellFormed result"
  shows "replyOf result = Inr (expectedReply result)"
proof -
  have json: "tr_json result = Inr (projr (tr_json result))"
    using assms by (cases "tr_json result") (simp_all add: wellFormed_def)
  show ?thesis
  proof (cases "tr_text result")
    case TextMissing
    then show ?thesis
      using json toolResultsReply_wellFormed [OF assms]
      by (cases "tr_json result") (simp_all add: replyOf_def expectedReply_def Let_def)
  next
    case (TextString t)
    then show ?thesis
      using json toolResultsReply_wellFormed [OF assms]
      by (cases "tr_json result") (auto simp: replyOf_def expectedReply_def Let_def trim_def)
  next
    case (TextOther error)
    then show ?thesis using assms by (simp add: wellFormed_def)
  qed
qed

lemma toolResultValue_printable:
  "toolResultValue r = Inl error \<Longrightarrow> printableResult r \<Longrightarrow> isPrintable error"
  by (cases r) (auto split: option.splits js_value.splits elim: printableValue.elims)

lemma mapThrowing_printable:
  "mapThrowing toolResultValue rs = Inl error \<Longrightarrow> list_all printableResult rs \<Longrightarrow> isPrintable error"
  by (induction rs) (auto split: sum.splits dest: toolResultValue_printable)

lemma toolResultsReply_printable:
  "toolResultsReply result = Inl error \<Longrightarrow> throwsPrintable result \<Longrightarrow> isPrintable error"
  by (auto simp: toolResultsReply_def throwsPrintable_def Let_def
      split: option.splits if_splits sum.splits dest: mapThrowing_printable)

lemma replyOf_printable:
  "replyOf result = Inl error \<Longrightarrow> throwsPrintable result \<Longrightarrow> isPrintable error"
  by (auto simp: replyOf_def Let_def throwsPrintable_def
      split: text_field.splits sum.splits if_splits
      dest: toolResultsReply_printable [unfolded throwsPrintable_def])


lemma generateSlackResponse_prompt_throws:
  "generateSlackResponse (Inl error) generateText userMessage apiKey userId =
     \<lparr>rr_reply = Inl error, rr_engineCalls = 0\<rparr>"
  by (simp add: generateSlackResponse_def)

text \<open>
  C9, as amended: once the schedule prompt has been built, for every user message:
  without the engine credential the function returns the fixed message and never calls
  the engine; with it, the engine is called once, and the function returns the
  trimmed text, else the shown tool values joined by line feeds, else the fixed
  fallback message, for every result that reading throws nothing from; it returns the
  apology with the message when the engine throws an error or a value that converts to
  a string; and it returns some string, letting no exception out, for every result
  whose unexpected shapes throw only what converts to a string.
\<close>

theorem generateSlackResponse_total:
  assumes "getSchedulePrompt = Inr schedule"
  shows "(\<not> truthy apiKey \<longrightarrow>
            generateSlackResponse getSchedulePrompt generateText userMessage apiKey userId =
              \<lparr>rr_reply =
                 Inr ''Sorry, the AI service is not configured. Please check server settings.'',
               rr_engineCalls = 0\<rparr>)
       \<and> (truthy apiKey \<and>
          generateText (the apiKey) (systemPromptOf schedule) userId userMessage = Inr result \<and>
          wellFormed result \<longrightarrow>
            generateSlackResponse getSchedulePrompt generateText userMessage apiKey userId =
              \<lparr>rr_reply = Inr (expectedReply result), rr_engineCalls = 1\<rparr>)
       \<and> (truthy apiKey \<and>
          generateText (the apiKey) (systemPromptOf schedule) userId userMessage = Inr result \<and>
          throwsPrintable result \<longrightarrow>
            (\<exists>reply. generateSlackResponse getSchedulePrompt generateText userMessage apiKey userId =
              \<lparr>rr_reply = Inr reply, rr_engineCalls = 1\<rparr>))
       \<and> (truthy apiKey \<and>
          generateText (the apiKey) (systemPromptOf schedule) userId userMessage =
            Inl (Printable error) \<longrightarrow>
            generateSlackResponse getSchedulePrompt generateText userMessage apiKey userId =
              \<lparr>rr_reply =
                 Inr (''Sorry, I encountered an error: '' @
                      (case error of JsError message \<Rightarrow> message | JsValue shown \<Rightarrow> shown)),
               rr_engineCalls = 1\<rparr>)"
proof (intro conjI impI)
  assume "\<not> truthy apiKey"
  then show "generateSlackResponse getSchedulePrompt generateText userMessage apiKey userId =
      \<lparr>rr_reply = Inr ''Sorry, the AI service is not configured. Please check server settings.'',
       rr_engineCalls = 0\<rparr>"
    using assms by (simp add: generateSlackResponse_def)
next
  assume a: "truthy apiKey \<and>
      generateText (the apiKey) (systemPromptOf schedule) userId userMessage = Inr result \<and>
      wellFormed result"
  then have "replyOf result = Inr (expectedReply result)"
    by (intro replyOf_wellFormed) simp
  then show "generateSlackResponse getSchedulePrompt generateText userMessage apiKey userId =
      \<lparr>rr_reply = Inr (expectedReply result), rr_engineCalls = 1\<rparr>"
    using assms a by (simp add: generateSlackResponse_def)
next
  assume a: "truthy apiKey \<and>
      generateText (the apiKey) (systemPromptOf schedule) userId userMessage = Inr result \<and>
      throwsPrintable result"
  show "\<exists>reply. generateSlackResponse getSchedulePrompt generateText userMessage apiKey userId =
      \<lparr>rr_reply = Inr reply, rr_engineCalls = 1\<rparr>"
  proof (cases "replyOf result")
    case (Inr reply)
    then show ?thesis using assms a by (simp add: generateSlackResponse_def)
  next
    case (Inl thrown)
    then have "isPrintable thrown" using a replyOf_printable [of result thrown] by simp
    then obtain e where "thrown = Printable e" by (cases thrown) simp_all
    then show ?thesis using assms a Inl by (simp add: generateSlackResponse_def)
  qed
next
  assume a: "truthy apiKey \<and>
      generateText (the apiKey) (systemPromptOf schedule) userId userMessage = Inl (Printable error)"
  then show "generateSlackResponse getSchedulePrompt generateText userMessage apiKey userId =
      \<lparr>rr_reply =
         Inr (''Sorry, I encountered an error: '' @
              (case error of JsError message \<Rightarrow> message | JsValue shown \<Rightarrow> shown)),
       rr_engineCalls = 1\<rparr>"
    using assms by (cases error) (simp_all add: generateSlackResponse_def)
qed

text \<open>
  C9 as stated fails: when the engine throws a value whose conversion to a string
  throws, the \<^verbatim>\<open>catch\<close> handler throws in its turn and the exception leaves the
  function.
\<close>

theorem generateSlackResponse_throws_counterexample:
  "generateSlackResponse (Inr ''The date is 2024-05-01.'') opaqueEngine ''hi'' (Some ''key'') ''U1'' =
     \<lparr>rr_reply = Inl (Printable (JsError ''Cannot convert object to primitive value'')),
      rr_engineCalls = 1\<rparr>"
  by code_simp

theorem generateSlackResponse_total_witness:
  "\<not> truthy None \<and> truthy (Some ''key'') \<and>
   generateSlackResponse (Inr ''The date is 2024-05-01.'') failingEngine ''hi'' None ''U1'' =
     \<lparr>rr_reply = Inr ''Sorry, the AI service is not configured. Please check server settings.'',
      rr_engineCalls = 0\<rparr> \<and>
   generateSlackResponse (Inr ''The date is 2024-05-01.'') failingEngine ''hi'' (Some ''key'') ''U1'' =
     \<lparr>rr_reply = Inr ''Sorry, I encountered an error: engine down'', rr_engineCalls = 1\<rparr> \<and>
   wellFormed \<lparr>tr_text = TextString '' '', tr_toolCalls = Some 2,
      tr_toolResults =
        Some [ResultObject None (Some (Stringable ''10am'')) None, ResultString ''saved''],
      tr_json = Inr ''{}''\<rparr> \<and>
   generateSlackResponse (Inr ''The date is 2024-05-01.'') toolEngine ''hi'' (Some ''key'') ''U1'' =
     \<lparr>rr_reply = Inr (''10am'' @ [CHR 0x0A] @ ''saved''), rr_engineCalls = 1\<rparr>"
proof -
  let ?result = "\<lparr>tr_text = TextString '' '', tr_toolCalls = Some 2,
      tr_toolResults =
        Some [ResultObject None (Some (Stringable ''10am'')) None, ResultString ''saved''],
      tr_json = Inr ''{}''\<rparr>"
  have p: "(Inr ''The date is 2024-05-01.'' :: caught + string) = Inr ''The date is 2024-05-01.''"
    by simp
  have absent: "\<not> truthy None" and present: "truthy (Some ''key'')"
    by (simp_all add: truthy_def)
  have well: "wellFormed ?result" by code_simp
  have expected: "expectedReply ?result = ''10am'' @ [CHR 0x0A] @ ''saved''" by code_simp
  have fixed: "generateSlackResponse (Inr ''The date is 2024-05-01.'') failingEngine ''hi'' None ''U1'' =
     \<lparr>rr_reply = Inr ''Sorry, the AI service is not configured. Please check server settings.'',
      rr_engineCalls = 0\<rparr>"
    using absent generateSlackResponse_total [OF p, of None failingEngine "''hi''" "''U1''"]
    by blast
  have caught: "generateSlackResponse (Inr ''The date is 2024-05-01.'') failingEngine ''hi''
      (Some ''key'') ''U1'' =
     \<lparr>rr_reply = Inr ''Sorry, I encountered an error: engine down'', rr_engineCalls = 1\<rparr>"
    using present generateSlackResponse_total [OF p, of "Some ''key''" failingEngine "''hi''" "''U1''"
        ?result "JsError ''engine down''"]
    by (simp add: failingEngine_def)
  have tools: "generateSlackResponse (Inr ''The date is 2024-05-01.'') toolEngine ''hi''
      (Some ''key'') ''U1'' =
     \<lparr>rr_reply = Inr (''10am'' @ [CHR 0x0A] @ ''saved''), rr_engineCalls = 1\<rparr>"
    using present well expected
      generateSlackResponse_total [OF p, of "Some ''key''" toolEngine "''hi''" "''U1''"
        ?result "JsError ''engine down''"]
    by (simp add: toolEngine_def)
  show ?thesis using absent present fixed caught well tools by blast
qed

section \<open>Properties of the mention extraction\<close>

lemma isMentionChar_all:
  "\<forall>c. isMentionChar c \<longleftrightarrow>
     c \<in> set ''0123456789ABCDEFGHIJKLMNOPQRSTUVWXYZabcdefghijklmnopqrstuvwxyz''"
  by code_simp

lemma isMentionChar_alphabet:
  "isMentionChar c \<longleftrightarrow>
     c \<in> set ''0123456789ABCDEFGHIJKLMNOPQRSTUVWXYZabcdefghijklmnopqrstuvwxyz''"
  using isMentionChar_all by blast

lemma matchMention_Some:
  assumes "matchMention s = Some rest"
  shows "\<exists>ident. s = ''<@'' @ ident @ ''>'' @ rest \<and> ident \<noteq> [] \<and>
           set ident \<subseteq> set ''0123456789ABCDEFGHIJKLMNOPQRSTUVWXYZabcdefghijklmnopqrstuvwxyz''"
proof -
  define ident where "ident = takeWhile isMentionChar (drop 2 s)"
  define after where "after = dropWhile isMentionChar (drop 2 s)"
  have start: "take 2 s = ''<@''" and ne: "ident \<noteq> []" and gt: "take 1 after = ''>''"
    and rest: "rest = drop 1 after"
    using assms by (auto simp: matchMention_def Let_def ident_def after_def split: if_splits)
  have a1: "s = ''<@'' @ drop 2 s"
    by (metis append_take_drop_id start)
  have a2: "drop 2 s = ident @ after"
    by (simp add: ident_def after_def)
  have a3: "after = ''>'' @ rest"
    by (metis append_take_drop_id gt rest)
  have shape: "s = ''<@'' @ ident @ ''>'' @ rest"
    by (metis a1 a2 a3)
  have "\<forall>c \<in> set ident. isMentionChar c"
    by (auto simp: ident_def dest: set_takeWhileD)
  then have "set ident \<subseteq> set ''0123456789ABCDEFGHIJKLMNOPQRSTUVWXYZabcdefghijklmnopqrstuvwxyz''"
    using isMentionChar_alphabet by blast
  then show ?thesis using shape ne by blast
qed

lemma stripMentions_Nil: "stripMentions [] = []"
  by (simp add: stripMentions.simps)

lemma matchMention_token:
  assumes "ident \<noteq> []"
    and "set ident \<subseteq> set ''0123456789ABCDEFGHIJKLMNOPQRSTUVWXYZabcdefghijklmnopqrstuvwxyz''"
  shows "matchMention (''<@'' @ ident @ ''>'' @ rest) = Some rest"
proof -
  have all: "\<forall>c \<in> set ident. isMentionChar c"
    using assms(2) isMentionChar_alphabet by blast
  have gt: "\<not> isMentionChar CHR ''>''" by (simp add: isMentionChar_def)
  have "takeWhile isMentionChar (ident @ CHR ''>'' # rest) = ident"
    using all gt by (simp add: takeWhile_append2)
  moreover have "dropWhile isMentionChar (ident @ CHR ''>'' # rest) = CHR ''>'' # rest"
    using all gt by (simp add: dropWhile_append2)
  ultimately show ?thesis using assms(1) by (simp add: matchMention_def)
qed

lemma stripMentions_token:
  assumes "ident \<noteq> []"
    and "set ident \<subseteq> set ''0123456789ABCDEFGHIJKLMNOPQRSTUVWXYZabcdefghijklmnopqrstuvwxyz''"
  shows "stripMentions (''<@'' @ ident @ ''>'' @ rest) = stripMentions rest"
proof -
  have "stripMentions (CHR ''<'' # (CHR ''@'' # ident @ ''>'' @ rest)) = stripMentions rest"
    using matchMention_token [OF assms, of rest] by (simp add: stripMentions.simps)
  then show ?thesis by simp
qed

lemma stripMentions_keep:
  assumes "\<not> (\<exists>ident rest. c # cs = ''<@'' @ ident @ ''>'' @ rest \<and> ident \<noteq> [] \<and>
      set ident \<subseteq> set ''0123456789ABCDEFGHIJKLMNOPQRSTUVWXYZabcdefghijklmnopqrstuvwxyz'')"
  shows "stripMentions (c # cs) = c # stripMentions cs"
proof -
  have "matchMention (c # cs) = None"
  proof (cases "matchMention (c # cs)")
    case None
    then show ?thesis .
  next
    case (Some rest)
    then show ?thesis using matchMention_Some [OF Some] assms by blast
  qed
  then show ?thesis by (simp add: stripMentions.simps)
qed

lemma stripMentions_unique:
  assumes nil: "f [] = []"
    and token: "\<And>ident rest. ident \<noteq> [] \<Longrightarrow>
      set ident \<subseteq> set ''0123456789ABCDEFGHIJKLMNOPQRSTUVWXYZabcdefghijklmnopqrstuvwxyz'' \<Longrightarrow>
      f (''<@'' @ ident @ ''>'' @ rest) = f rest"
    and keep: "\<And>c cs. \<not> (\<exists>ident rest. c # cs = ''<@'' @ ident @ ''>'' @ rest \<and> ident \<noteq> [] \<and>
      set ident \<subseteq> set ''0123456789ABCDEFGHIJKLMNOPQRSTUVWXYZabcdefghijklmnopqrstuvwxyz'') \<Longrightarrow>
      f (c # cs) = c # f cs"
  shows "f s = stripMentions s"
proof (induction s rule: length_induct)
  case (1 s)
  show ?case
  proof (cases s)
    case Nil
    then show ?thesis by (simp add: nil stripMentions_Nil)
  next
    case (Cons c cs)
    show ?thesis
    proof (cases "\<exists>ident rest. c # cs = ''<@'' @ ident @ ''>'' @ rest \<and> ident \<noteq> [] \<and>
      set ident \<subseteq> set ''0123456789ABCDEFGHIJKLMNOPQRSTUVWXYZabcdefghijklmnopqrstuvwxyz''")
      case True
      then obtain ident rest where shape: "c # cs = ''<@'' @ ident @ ''>'' @ rest"
        and ok: "ident \<noteq> []"
          "set ident \<subseteq> set ''0123456789ABCDEFGHIJKLMNOPQRSTUVWXYZabcdefghijklmnopqrstuvwxyz''"
        by blast
      have "length rest < length s" using shape Cons by (simp add: arg_cong [OF shape, of length])
      then have "f rest = stripMentions rest" using 1 by blast
      then show ?thesis
        using token [OF ok, of rest] stripMentions_token [OF ok, of rest] shape Cons by simp
    next
      case False
      have "length cs < length s" using Cons by simp
      then have "f cs = stripMentions cs" using 1 by blast
      then show ?thesis
        using keep [OF False] stripMentions_keep [OF False] Cons by simp
    qed
  qed
qed

text \<open>
  C8, as amended: for an \<^verbatim>\<open>app_mention\<close> event the extracted text is the event text
  with every mention token removed, wherever it stands, and then trimmed; the channel
  is the event's channel and the reply thread is the event's own \<^verbatim>\<open>ts\<close>. A mention
  token is \<^verbatim>\<open><@\<close>, one or more letters or digits of either case, and \<^verbatim>\<open>>\<close>. The
  removal is fixed by three equations: the empty text stays empty; a text that starts
  with a token loses it and the rest is scanned on; any other text keeps its first
  character, also a \<^verbatim>\<open><\<close> that opens no token, and the rest is scanned on.
\<close>

theorem extractMessage_app_mention:
  assumes "ev_type event = ''app_mention''"
  shows "extractMessage event =
           (map_option (\<lambda>text. trim (stripMentions text)) (ev_text event),
            ev_channel event, ev_ts event)
         \<and> stripMentions [] = []
         \<and> (ident \<noteq> [] \<and>
            set ident \<subseteq> set ''0123456789ABCDEFGHIJKLMNOPQRSTUVWXYZabcdefghijklmnopqrstuvwxyz'' \<longrightarrow>
              stripMentions (''<@'' @ ident @ ''>'' @ rest) = stripMentions rest)
         \<and> (\<not> (\<exists>ident rest. c # cs = ''<@'' @ ident @ ''>'' @ rest \<and> ident \<noteq> [] \<and>
              set ident \<subseteq> set ''0123456789ABCDEFGHIJKLMNOPQRSTUVWXYZabcdefghijklmnopqrstuvwxyz'')
            \<longrightarrow> stripMentions (c # cs) = c # stripMentions cs)"
proof (intro conjI impI)
  show "extractMessage event =
      (map_option (\<lambda>text. trim (stripMentions text)) (ev_text event), ev_channel event, ev_ts event)"
    using assms by (simp add: extractMessage_def)
next
  show "stripMentions [] = []" by (rule stripMentions_Nil)
next
  assume "ident \<noteq> [] \<and>
      set ident \<subseteq> set ''0123456789ABCDEFGHIJKLMNOPQRSTUVWXYZabcdefghijklmnopqrstuvwxyz''"
  then show "stripMentions (''<@'' @ ident @ ''>'' @ rest) = stripMentions rest"
    by (intro stripMentions_token) simp_all
next
  assume "\<not> (\<exists>ident rest. c # cs = ''<@'' @ ident @ ''>'' @ rest \<and> ident \<noteq> [] \<and>
      set ident \<subseteq> set ''0123456789ABCDEFGHIJKLMNOPQRSTUVWXYZabcdefghijklmnopqrstuvwxyz'')"
  then show "stripMentions (c # cs) = c # stripMentions cs"
    by (rule stripMentions_keep)
qed

text \<open>
  C8 as stated fails: a second mention is removed too, where stripping the leading
  token alone would keep it.
\<close>

theorem extractMessage_leading_only_counterexample:
  "ev_type twoMentionsEvent = ''app_mention'' \<and>
   ev_text twoMentionsEvent = Some ''<@BOT123> ask <@U456> now'' \<and>
   fst (extractMessage twoMentionsEvent) = Some ''ask  now'' \<and>
   trim (stripLeadingMention ''<@BOT123> ask <@U456> now'') = ''ask <@U456> now''"
  by code_simp

theorem extractMessage_app_mention_witness:
  "ev_type linkMentionEvent = ''app_mention'' \<and>
   extractMessage linkMentionEvent =
     (Some ''see <http://x.io> and  too'', Some ''C1'', Some ''1700000000.000500'') \<and>
   stripMentions (''<@'' @ ''bot9'' @ ''>'' @ '' you'') = stripMentions '' you'' \<and>
   stripMentions ''<http'' = CHR ''<'' # stripMentions ''http''"
proof -
  have h: "ev_type linkMentionEvent = ''app_mention''" by (simp add: linkMentionEvent_def)
  have fields: "ev_text linkMentionEvent = Some ''see <http://x.io> and <@u9> too''"
    "ev_channel linkMentionEvent = Some ''C1''"
    "ev_ts linkMentionEvent = Some ''1700000000.000500''"
    by (simp_all add: linkMentionEvent_def)
  have stripped: "trim (stripMentions ''see <http://x.io> and <@u9> too'') =
      ''see <http://x.io> and  too''"
    by code_simp
  have extracted: "extractMessage linkMentionEvent =
      (Some ''see <http://x.io> and  too'', Some ''C1'', Some ''1700000000.000500'')"
    using extractMessage_app_mention [OF h, of "[]" "[]" "CHR ''x''" "[]"]
    by (simp add: fields stripped)
  have ident: "''bot9'' \<noteq> [] \<and>
      set ''bot9'' \<subseteq> set ''0123456789ABCDEFGHIJKLMNOPQRSTUVWXYZabcdefghijklmnopqrstuvwxyz''"
    by simp
  have token: "stripMentions (''<@'' @ ''bot9'' @ ''>'' @ '' you'') = stripMentions '' you''"
    using ident extractMessage_app_mention [OF h, of "''bot9''" "'' you''" "CHR ''x''" "[]"]
    by blast
  have no_token: "\<not> (\<exists>ident rest. CHR ''<'' # ''http'' = ''<@'' @ ident @ ''>'' @ rest \<and>
      ident \<noteq> [] \<and>
      set ident \<subseteq> set ''0123456789ABCDEFGHIJKLMNOPQRSTUVWXYZabcdefghijklmnopqrstuvwxyz'')"
    by simp
  have kept: "stripMentions (CHR ''<'' # ''http'') = CHR ''<'' # stripMentions ''http''"
    using no_token extractMessage_app_mention [OF h, of "[]" "[]" "CHR ''<''" "''http''"]
    by blast
  show ?thesis using h extracted token kept by simp
qed

section \<open>Properties of the dispatcher\<close>

lemma accepted_handle:
  assumes "acceptedEvent hmacSha256 jsonParse nowMs request env event"
  shows "handleSlackEvent hmacSha256 jsonParse nowMs request env ctx =
           handleEventCallback nowMs event env ctx"
  using assms by (auto simp: acceptedEvent_def handleSlackEvent_def)

lemma idempotencyGet_Put:
  "idempotencyGet (idempotencyPut env key val) key = Some val"
  by (simp add: idempotencyGet_def idempotencyPut_def split: option.splits)

lemma idempotencyGet_Put_other:
  "key' \<noteq> key \<Longrightarrow> idempotencyGet (idempotencyPut env key val) key' = idempotencyGet env key'"
  by (simp add: idempotencyGet_def idempotencyPut_def split: option.splits)

lemma idempotencyPut_frame:
  "arky_reminders (idempotencyPut env key val) = arky_reminders env \<and>
   SLACK_BOT_TOKEN (idempotencyPut env key val) = SLACK_BOT_TOKEN env \<and>
   SLACK_SIGNING_SECRET (idempotencyPut env key val) = SLACK_SIGNING_SECRET env \<and>
   GOOGLE_GENERATIVE_AI_API_KEY (idempotencyPut env key val) = GOOGLE_GENERATIVE_AI_API_KEY env"
  by (simp add: idempotencyPut_def split: option.splits)

lemma acceptedEvent_Put:
  "acceptedEvent hmacSha256 jsonParse nowMs request (idempotencyPut env key val) event \<longleftrightarrow>
     acceptedEvent hmacSha256 jsonParse nowMs request env event"
  by (simp add: acceptedEvent_def idempotencyPut_frame)

lemma eventKeyOf_ts:
  "truthy (ev_ts event) \<Longrightarrow> eventKeyOf nowMs event = ''slack-event:'' @ the (ev_ts event)"
  by (simp add: eventKeyOf_def)

lemma callback_processed:
  assumes "\<not> truthy (ev_bot_id event)" "truthy (idempotencyGet env (eventKeyOf nowMs event))"
  shows "handleEventCallback nowMs event env ctx = respond 200 ''OK'' env"
  using assms by (simp add: handleEventCallback_def Let_def)

lemma callback_fresh_unusable:
  assumes "\<not> truthy (ev_bot_id event)" "\<not> truthy (idempotencyGet env (eventKeyOf nowMs event))"
    "\<not> usable event"
  shows "handleEventCallback nowMs event env ctx =
           respond 200 ''OK'' (idempotencyPut env (eventKeyOf nowMs event) ''processed'')"
  using assms by (auto simp: handleEventCallback_def Let_def usable_def split: prod.splits)

lemma callback_fresh_usable:
  assumes "\<not> truthy (ev_bot_id event)" "\<not> truthy (idempotencyGet env (eventKeyOf nowMs event))"
    "usable event"
  shows "handleEventCallback nowMs event env ctx =
     \<lparr>hr_response = \<lparr>rs_status = 200, rs_body = ''OK''\<rparr>,
      hr_env = idempotencyPut env (eventKeyOf nowMs event) ''processed'',
      hr_background =
        Some \<lparr>bt_userText = the (fst (extractMessage event)),
              bt_channelId = the (fst (snd (extractMessage event))),
              bt_threadTs = snd (snd (extractMessage event)),
              bt_userId = the (ev_user event)\<rparr>,
      hr_waitUntil = ctx\<rparr>"
  using assms by (auto simp: handleEventCallback_def Let_def usable_def split: prod.splits)

lemma callback_marks:
  assumes "\<not> truthy (ev_bot_id event)"
  shows "truthy (idempotencyGet (hr_env (handleEventCallback nowMs event env ctx))
           (eventKeyOf nowMs event))"
proof (cases "truthy (idempotencyGet env (eventKeyOf nowMs event))")
  case True
  then show ?thesis using assms by (simp add: callback_processed respond_def)
next
  case False
  then show ?thesis
    using assms
    by (cases "usable event")
       (simp_all add: callback_fresh_unusable callback_fresh_usable respond_def
          idempotencyGet_Put truthy_def)
qed

lemma callback_env:
  assumes "\<not> truthy (ev_bot_id event)"
  shows "hr_env (handleEventCallback nowMs event env ctx) =
     (if truthy (idempotencyGet env (eventKeyOf nowMs event)) then env
      else idempotencyPut env (eventKeyOf nowMs event) ''processed'')"
  using assms
  by (cases "usable event")
     (simp_all add: callback_processed callback_fresh_unusable callback_fresh_usable respond_def)

text \<open>
  C7, as amended: for a verified event callback no bot sent, whose extraction gives no
  usable text, channel or user, the handler answers OK and starts no background task;
  the idempotency mark of the event is the one thing it writes (when the mark is not
  there yet), and the reminder bucket and everything else stay as they were.
\<close>

theorem no_action_leaves_only_mark:
  assumes "acceptedEvent hmacSha256 jsonParse nowMs request env event"
    and "\<not> usable event"
  shows "hr_response (handleSlackEvent hmacSha256 jsonParse nowMs request env ctx) =
           \<lparr>rs_status = 200, rs_body = ''OK''\<rparr>
       \<and> hr_background (handleSlackEvent hmacSha256 jsonParse nowMs request env ctx) = None
       \<and> hr_waitUntil (handleSlackEvent hmacSha256 jsonParse nowMs request env ctx) = False
       \<and> hr_env (handleSlackEvent hmacSha256 jsonParse nowMs request env ctx) =
           (if truthy (idempotencyGet env (eventKeyOf nowMs event)) then env
            else idempotencyPut env (eventKeyOf nowMs event) ''processed'')
       \<and> arky_reminders (hr_env (handleSlackEvent hmacSha256 jsonParse nowMs request env ctx)) =
           arky_reminders env"
proof -
  have bot: "\<not> truthy (ev_bot_id event)" using assms(1) by (simp add: acceptedEvent_def)
  have run: "handleSlackEvent hmacSha256 jsonParse nowMs request env ctx =
      handleEventCallback nowMs event env ctx"
    by (rule accepted_handle [OF assms(1)])
  show ?thesis
  proof (cases "truthy (idempotencyGet env (eventKeyOf nowMs event))")
    case True
    then show ?thesis using bot by (simp add: run callback_processed respond_def)
  next
    case False
    then show ?thesis
      using bot assms(2)
      by (simp add: run callback_fresh_unusable respond_def idempotencyPut_frame)
  qed
qed

text \<open>
  C6, as amended: two calls in sequence with the same verified event callback, no bot's,
  whose event carries a provider timestamp: the second call finds the mark, answers OK,
  starts no background task and changes nothing. The first call starts a background
  task exactly when the event was not marked before and its extraction is usable; so
  the two calls start at most one task.
\<close>

theorem duplicate_event_skipped:
  assumes "acceptedEvent hmacSha256 jsonParse nowMs request env event"
    and "acceptedEvent hmacSha256 jsonParse nowMs' request env event"
    and "truthy (ev_ts event)"
  shows "hr_background (handleSlackEvent hmacSha256 jsonParse nowMs' request
            (hr_env (handleSlackEvent hmacSha256 jsonParse nowMs request env ctx)) ctx') = None
       \<and> hr_response (handleSlackEvent hmacSha256 jsonParse nowMs' request
            (hr_env (handleSlackEvent hmacSha256 jsonParse nowMs request env ctx)) ctx') =
           \<lparr>rs_status = 200, rs_body = ''OK''\<rparr>
       \<and> hr_env (handleSlackEvent hmacSha256 jsonParse nowMs' request
            (hr_env (handleSlackEvent hmacSha256 jsonParse nowMs request env ctx)) ctx') =
           hr_env (handleSlackEvent hmacSha256 jsonParse nowMs request env ctx)
       \<and> (hr_background (handleSlackEvent hmacSha256 jsonParse nowMs request env ctx) \<noteq> None
            \<longleftrightarrow> \<not> truthy (idempotencyGet env (''slack-event:'' @ the (ev_ts event)))
                \<and> usable event)"
proof -
  let ?first = "handleSlackEvent hmacSha256 jsonParse nowMs request env ctx"
  let ?key = "''slack-event:'' @ the (ev_ts event)"
  have bot: "\<not> truthy (ev_bot_id event)" using assms(1) by (simp add: acceptedEvent_def)
  have key: "eventKeyOf nowMs event = ?key" "eventKeyOf nowMs' event = ?key"
    using assms(3) by (simp_all add: eventKeyOf_ts)
  have first: "?first = handleEventCallback nowMs event env ctx"
    by (rule accepted_handle [OF assms(1)])
  have env1: "hr_env ?first =
      (if truthy (idempotencyGet env ?key) then env else idempotencyPut env ?key ''processed'')"
    using callback_env [OF bot, of nowMs env ctx] by (simp add: first key)
  have accepted2: "acceptedEvent hmacSha256 jsonParse nowMs' request (hr_env ?first) event"
    using assms(2) by (simp add: env1 acceptedEvent_Put)
  have marked: "truthy (idempotencyGet (hr_env ?first) (eventKeyOf nowMs' event))"
    using callback_marks [OF bot, of nowMs env ctx] by (simp add: first key)
  have second: "handleSlackEvent hmacSha256 jsonParse nowMs' request (hr_env ?first) ctx' =
      respond 200 ''OK'' (hr_env ?first)"
    using accepted_handle [OF accepted2, of ctx'] callback_processed [OF bot marked, of ctx']
    by simp
  have started: "hr_background ?first \<noteq> None \<longleftrightarrow>
      \<not> truthy (idempotencyGet env ?key) \<and> usable event"
  proof (cases "truthy (idempotencyGet env ?key)")
    case True
    then show ?thesis using bot by (simp add: first callback_processed key respond_def)
  next
    case False
    then show ?thesis
      using bot
      by (cases "usable event")
         (simp_all add: first callback_fresh_unusable callback_fresh_usable key respond_def)
  qed
  show ?thesis using second started by (simp add: respond_def)
qed

lemma exampleAccepted:
  "truthy (ev_bot_id event) = False \<Longrightarrow> nowMs div 1000 = 1700000100 \<Longrightarrow>
     acceptedEvent exampleHmac (exampleParse event) nowMs exampleRequest exampleEnv event"
  by (simp add: acceptedEvent_def exampleHmac_def exampleParse_def exampleRequest_def exampleEnv_def
      truthy_def verifySlackRequest_unfold timestampTooOld_def parseInt_eval hashHex_eval)

text \<open>
  C7 as stated fails: an accepted message in a public channel gives nothing to answer,
  and the call still writes the idempotency mark.
\<close>

theorem no_action_mark_counterexample:
  "acceptedEvent exampleHmac (exampleParse channelMessage) 1700000100000 exampleRequest exampleEnv
     channelMessage \<and>
   \<not> usable channelMessage \<and>
   idempotencyGet exampleEnv ''slack-event:1700000000.000100'' = None \<and>
   idempotencyGet (hr_env (handleSlackEvent exampleHmac (exampleParse channelMessage) 1700000100000
     exampleRequest exampleEnv True)) ''slack-event:1700000000.000100'' = Some ''processed''"
proof -
  have "acceptedEvent exampleHmac (exampleParse channelMessage) 1700000100000 exampleRequest
      exampleEnv channelMessage"
    by (rule exampleAccepted) (simp_all add: channelMessage_def truthy_def)
  moreover have "\<not> usable channelMessage" by code_simp
  moreover have "idempotencyGet exampleEnv ''slack-event:1700000000.000100'' = None"
    by code_simp
  moreover have "idempotencyGet (hr_env (handleSlackEvent exampleHmac (exampleParse channelMessage)
      1700000100000 exampleRequest exampleEnv True)) ''slack-event:1700000000.000100'' =
      Some ''processed''"
    by code_simp
  ultimately show ?thesis by blast
qed

theorem no_action_leaves_only_mark_witness:
  "acceptedEvent exampleHmac (exampleParse channelMessage) 1700000100000 exampleRequest exampleEnv
     channelMessage \<and>
   \<not> usable channelMessage \<and>
   hr_background (handleSlackEvent exampleHmac (exampleParse channelMessage) 1700000100000
     exampleRequest exampleEnv True) = None \<and>
   arky_reminders (hr_env (handleSlackEvent exampleHmac (exampleParse channelMessage) 1700000100000
     exampleRequest exampleEnv True)) = arky_reminders exampleEnv"
proof -
  have a: "acceptedEvent exampleHmac (exampleParse channelMessage) 1700000100000 exampleRequest
      exampleEnv channelMessage"
    by (rule exampleAccepted) (simp_all add: channelMessage_def truthy_def)
  have u: "\<not> usable channelMessage" by code_simp
  show ?thesis
    using a u no_action_leaves_only_mark [OF a u, of True] by blast
qed

text \<open>
  C6 as stated fails: the same accepted channel message, sent twice, starts no
  background task at all.
\<close>

theorem duplicate_event_no_task_counterexample:
  "acceptedEvent exampleHmac (exampleParse channelMessage) 1700000100000 exampleRequest exampleEnv
     channelMessage \<and>
   acceptedEvent exampleHmac (exampleParse channelMessage) 1700000100500 exampleRequest exampleEnv
     channelMessage \<and>
   truthy (ev_ts channelMessage) \<and>
   hr_background (handleSlackEvent exampleHmac (exampleParse channelMessage) 1700000100000
     exampleRequest exampleEnv True) = None \<and>
   hr_background (handleSlackEvent exampleHmac (exampleParse channelMessage) 1700000100500
     exampleRequest (hr_env (handleSlackEvent exampleHmac (exampleParse channelMessage)
       1700000100000 exampleRequest exampleEnv True)) True) = None"
proof -
  have "acceptedEvent exampleHmac (exampleParse channelMessage) 1700000100000 exampleRequest
      exampleEnv channelMessage"
    by (rule exampleAccepted) (simp_all add: channelMessage_def truthy_def)
  moreover have "acceptedEvent exampleHmac (exampleParse channelMessage) 1700000100500
      exampleRequest exampleEnv channelMessage"
    by (rule exampleAccepted) (simp_all add: channelMessage_def truthy_def)
  moreover have "truthy (ev_ts channelMessage)" by code_simp
  moreover have "hr_background (handleSlackEvent exampleHmac (exampleParse channelMessage)
      1700000100000 exampleRequest exampleEnv True) = None"
    by code_simp
  moreover have "hr_background (handleSlackEvent exampleHmac (exampleParse channelMessage)
      1700000100500 exampleRequest (hr_env (handleSlackEvent exampleHmac
        (exampleParse channelMessage) 1700000100000 exampleRequest exampleEnv True)) True) = None"
    by code_simp
  ultimately show ?thesis by blast
qed

theorem duplicate_event_skipped_witness:
  "acceptedEvent exampleHmac (exampleParse directMessage) 1700000100000 exampleRequest exampleEnv
     directMessage \<and>
   acceptedEvent exampleHmac (exampleParse directMessage) 1700000100500 exampleRequest exampleEnv
     directMessage \<and>
   truthy (ev_ts directMessage) \<and>
   hr_background (handleSlackEvent exampleHmac (exampleParse directMessage) 1700000100000
     exampleRequest exampleEnv True) =
     Some \<lparr>bt_userText = ''hello there'', bt_channelId = ''D1'', bt_threadTs = None,
           bt_userId = ''U1''\<rparr> \<and>
   hr_background (handleSlackEvent exampleHmac (exampleParse directMessage) 1700000100500
     exampleRequest (hr_env (handleSlackEvent exampleHmac (exampleParse directMessage)
       1700000100000 exampleRequest exampleEnv True)) True) = None"
proof -
  have a1: "acceptedEvent exampleHmac (exampleParse directMessage) 1700000100000 exampleRequest
      exampleEnv directMessage"
    by (rule exampleAccepted) (simp_all add: directMessage_def truthy_def)
  have a2: "acceptedEvent exampleHmac (exampleParse directMessage) 1700000100500 exampleRequest
      exampleEnv directMessage"
    by (rule exampleAccepted) (simp_all add: directMessage_def truthy_def)
  have t: "truthy (ev_ts directMessage)" by code_simp
  have started: "hr_background (handleSlackEvent exampleHmac (exampleParse directMessage)
      1700000100000 exampleRequest exampleEnv True) =
     Some \<lparr>bt_userText = ''hello there'', bt_channelId = ''D1'', bt_threadTs = None,
           bt_userId = ''U1''\<rparr>"
    by code_simp
  have skipped: "hr_background (handleSlackEvent exampleHmac (exampleParse directMessage)
      1700000100500 exampleRequest (hr_env (handleSlackEvent exampleHmac
        (exampleParse directMessage) 1700000100000 exampleRequest exampleEnv True)) True) = None"
    using duplicate_event_skipped [OF a1 a2 t, of True True] by blast
  show ?thesis using a1 a2 t started skipped by blast
qed

end
